theory Spec2Isabelle
  imports Main "HOL-Library.Sublist"
begin

section \<open>Text, lines and the include directive\<close>

text \<open>
  JavaScript strings are modelled by \<^typ>\<open>string\<close>: a character is a code unit below
  256. Within that range the regular-expression class \<open>\s\<close> holds TAB, LF, VT, FF, CR,
  SPACE and NBSP, and \<open>.\<close> matches everything except LF and CR.
\<close>

abbreviation LF :: char where "LF \<equiv> CHR 0x0A"
abbreviation CR :: char where "CR \<equiv> CHR 0x0D"

definition is_space :: "char \<Rightarrow> bool" where
  "is_space c = (c \<in> set [CHR 0x09, LF, CHR 0x0B, CHR 0x0C, CR, CHR 0x20, CHR 0xA0])"

definition is_line_terminator :: "char \<Rightarrow> bool" where
  "is_line_terminator c = (c = LF \<or> c = CR)"

text \<open>\<open>fileContent.split(/\r?\n/)\<close>: a separator is LF, or CR followed by LF. The result
  always has at least one element; a lone CR stays inside its line.\<close>

fun split_lines :: "string \<Rightarrow> string list" where
  "split_lines [] = [[]]"
| "split_lines [c] = (if c = LF then [[], []] else [[c]])"
| "split_lines (c # d # cs) =
     (if c = LF then [] # split_lines (d # cs)
      else if c = CR \<and> d = LF then [] # split_lines cs
      else (case split_lines (d # cs) of
              [] \<Rightarrow> [[c]]
            | l # ls \<Rightarrow> (c # l) # ls))"

text \<open>\<open>line.startsWith('##include')\<close>.\<close>

definition marker :: string where
  "marker = ''##include''"

definition startsWith :: "string \<Rightarrow> string \<Rightarrow> bool" where
  "startsWith s p = prefix p s"

text \<open>The part of \<open>xs\<close> before the last occurrence of \<open>c\<close>, when there is one.\<close>

definition before_last :: "char \<Rightarrow> string \<Rightarrow> string option" where
  "before_last c xs =
     (if c \<in> set xs then Some (rev (tl (dropWhile (\<lambda>x. x \<noteq> c) (rev xs)))) else None)"

text \<open>
  One attempt of the pattern \<open>##include\s+<(.+)>\<close> at the head of \<open>s\<close>: the marker, a
  non-empty maximal run of white space, \<open><\<close>, then the greedy group \<open>(.+)\<close>, which
  runs to the last \<open>>\<close> before the first line terminator and keeps at least one
  character. The value is the group \<open>match[1]\<close>.
\<close>

definition match_here :: "string \<Rightarrow> string option" where
  "match_here s =
     (if prefix marker s then
        (let r = drop (length marker) s;
             ws = takeWhile is_space r;
             r' = dropWhile is_space r
         in if ws = [] then None
            else (case r' of
                    [] \<Rightarrow> None
                  | b # body \<Rightarrow>
                      if b \<noteq> CHR ''<'' then None
                      else (case takeWhile (\<lambda>c. \<not> is_line_terminator c) body of
                              [] \<Rightarrow> None
                            | x # run \<Rightarrow> map_option (\<lambda>t. x # t) (before_last CHR ''>'' run))))
      else None)"

text \<open>\<open>line.match(/##include\s+<(.+)>/)\<close> is not anchored: the leftmost position where
  the pattern matches wins.\<close>

fun regex_match :: "string \<Rightarrow> string option" where
  "regex_match [] = match_here []"
| "regex_match (c # cs) =
     (case match_here (c # cs) of
        Some t \<Rightarrow> Some t
      | None \<Rightarrow> regex_match cs)"

section \<open>Errors, console and file system\<close>

text \<open>
  A thrown \<open>Error\<close> is a value. \<open>MaxRecursionExceeded\<close> is the error of the depth check,
  \<open>ProcessingError\<close> the one the \<open>catch\<close> of \<open>resolveIncludes\<close> rethrows around its
  cause, \<open>FsError\<close> an error of the \<open>fs\<close> module with its message.
\<close>

datatype error =
    MaxRecursionExceeded string
  | ProcessingError string error
  | FsError string

fun error_message :: "error \<Rightarrow> string" where
  "error_message (MaxRecursionExceeded filePath) =
     ''Max recursion depth exceeded while processing includes in '' @ filePath"
| "error_message (ProcessingError filePath e) =
     ''Error processing file '' @ filePath @ '': '' @ error_message e"
| "error_message (FsError m) = m"

fun root_cause :: "error \<Rightarrow> error" where
  "root_cause (ProcessingError filePath e) = root_cause e"
| "root_cause e = e"

datatype console_line = Log string | Err string

text \<open>A directory node lists the names of its entries, as \<open>readdirSync\<close> returns them.\<close>

datatype node = File string | Dir "string list"

type_synonym filesystem = "string \<Rightarrow> node option"

definition quoted :: "string \<Rightarrow> string" where
  "quoted p = CHR 0x27 # p @ [CHR 0x27]"

text \<open>\<open>fs.existsSync\<close> holds of files and of directories; \<open>fs.readFileSync\<close> returns the
  content of a regular file and throws on a directory and on a missing path.\<close>

definition existsSync :: "filesystem \<Rightarrow> string \<Rightarrow> bool" where
  "existsSync fs p = (fs p \<noteq> None)"

definition readFileSync :: "filesystem \<Rightarrow> string \<Rightarrow> error + string" where
  "readFileSync fs p =
     (case fs p of
        Some (File c) \<Rightarrow> Inr c
      | Some (Dir es) \<Rightarrow> Inl (FsError ''EISDIR: illegal operation on a directory, read'')
      | None \<Rightarrow> Inl (FsError (''ENOENT: no such file or directory, open '' @ quoted p)))"

section \<open>The include resolver\<close>

text \<open>
  The body of the \<open>for\<close> loop of \<open>resolveIncludes\<close>, over the remaining lines, with the
  console lines written so far and \<open>resolvedContent\<close>. \<open>rec\<close> is the nested call
  \<open>resolveIncludes(includeFilePath, includeRoot, maxRecursion, currentDepth + 1)\<close>;
  \<open>resolve\<close> is \<open>path.resolve\<close> with two arguments. An error of the nested call
  leaves the loop.
\<close>

fun include_loop ::
  "(string \<Rightarrow> console_line list \<times> (error + string)) \<Rightarrow> filesystem \<Rightarrow>
   (string \<Rightarrow> string \<Rightarrow> string) \<Rightarrow> string \<Rightarrow> string list \<Rightarrow>
   console_line list \<Rightarrow> string \<Rightarrow> console_line list \<times> (error + string)" where
  "include_loop rec fs resolve includeRoot [] console resolvedContent =
     (console, Inr resolvedContent)"
| "include_loop rec fs resolve includeRoot (line # lines) console resolvedContent =
     (if startsWith line marker then
        (case regex_match line of
           Some target \<Rightarrow>
             (let includeFilePath = resolve includeRoot target in
              if existsSync fs includeFilePath then
                (case rec includeFilePath of
                   (out, Inl e) \<Rightarrow> (console @ out, Inl e)
                 | (out, Inr s) \<Rightarrow>
                     include_loop rec fs resolve includeRoot lines (console @ out)
                       (resolvedContent @ s @ [LF]))
              else
                include_loop rec fs resolve includeRoot lines
                  (console @ [Err (''Error: File not found - '' @ includeFilePath)])
                  resolvedContent)
         | None \<Rightarrow>
             include_loop rec fs resolve includeRoot lines
               (console @ [Err (''Error: Malformed include directive - '' @ line)])
               resolvedContent)
      else
        include_loop rec fs resolve includeRoot lines console (resolvedContent @ line @ [LF]))"

text \<open>
  \<open>resolveIncludes(filePath, includeRoot, maxRecursion, currentDepth)\<close>. The depth check
  is outside the \<open>try\<close>; everything thrown inside it is rethrown as a
  \<open>ProcessingError\<close> of this file. The result is the console lines written and either
  the error thrown or the string returned. The two numbers are integers; a
  \<open>maxRecursion\<close> that is not a number is not modelled.
\<close>

function resolveIncludes ::
  "filesystem \<Rightarrow> (string \<Rightarrow> string \<Rightarrow> string) \<Rightarrow> string \<Rightarrow> string \<Rightarrow> int \<Rightarrow> int \<Rightarrow>
   console_line list \<times> (error + string)" where
  "resolveIncludes fs resolve filePath includeRoot maxRecursion currentDepth =
     (if currentDepth > maxRecursion then ([], Inl (MaxRecursionExceeded filePath))
      else
        (case readFileSync fs filePath of
           Inl e \<Rightarrow> ([], Inl (ProcessingError filePath e))
         | Inr fileContent \<Rightarrow>
             (case include_loop
                     (\<lambda>p. resolveIncludes fs resolve p includeRoot maxRecursion (currentDepth + 1))
                     fs resolve includeRoot (split_lines fileContent) [] [] of
                (out, Inl e) \<Rightarrow> (out, Inl (ProcessingError filePath e))
              | (out, Inr resolvedContent) \<Rightarrow> (out, Inr resolvedContent))))"
  by pat_completeness auto
termination
  by (relation "measure (\<lambda>(fs, resolve, filePath, includeRoot, maxRecursion, currentDepth).
        nat (maxRecursion + 1 - currentDepth))") auto

declare resolveIncludes.simps [simp del]

section \<open>The rest of the file system\<close>

text \<open>
  Paths of the file system are absolute POSIX paths. \<open>parent_of\<close> is the directory a
  path lies in, \<open>base_of\<close> its last component, \<open>ancestors\<close> the directories above it,
  and \<open>is_under d q\<close> says that \<open>q\<close> is \<open>d\<close> or lies below the directory \<open>d\<close>.
\<close>

definition parent_of :: "string \<Rightarrow> string" where
  "parent_of p =
     (let d = rev (tl (dropWhile (\<lambda>c. c \<noteq> CHR ''/'') (rev p)))
      in if d = [] then ''/'' else d)"

definition base_of :: "string \<Rightarrow> string" where
  "base_of p = rev (takeWhile (\<lambda>c. c \<noteq> CHR ''/'') (rev p))"

function ancestors :: "string \<Rightarrow> string list" where
  "ancestors p =
     (if length (parent_of p) < length p then parent_of p # ancestors (parent_of p) else [])"
  by pat_completeness auto
termination
  by (relation "measure length") auto

declare ancestors.simps [simp del]

definition is_under :: "string \<Rightarrow> string \<Rightarrow> bool" where
  "is_under d q = (q = d \<or> prefix (d @ ''/'') q)"

definition add_entry :: "filesystem \<Rightarrow> string \<Rightarrow> string \<Rightarrow> filesystem" where
  "add_entry fs d n =
     (case fs d of
        Some (Dir es) \<Rightarrow> fs(d \<mapsto> Dir (if n \<in> set es then es else es @ [n]))
      | _ \<Rightarrow> fs)"

definition remove_entry :: "filesystem \<Rightarrow> string \<Rightarrow> string \<Rightarrow> filesystem" where
  "remove_entry fs d n =
     (case fs d of
        Some (Dir es) \<Rightarrow> fs(d \<mapsto> Dir (removeAll n es))
      | _ \<Rightarrow> fs)"

text \<open>\<open>fs.mkdirSync(p, { recursive: true })\<close>: creates \<open>p\<close> and the missing directories
  above it; an existing directory is left as it is; a regular file in the way throws.\<close>

function mkdirSync_recursive :: "filesystem \<Rightarrow> string \<Rightarrow> error + filesystem" where
  "mkdirSync_recursive fs p =
     (case fs p of
        Some (Dir es) \<Rightarrow> Inr fs
      | Some (File c) \<Rightarrow> Inl (FsError (''EEXIST: file already exists, mkdir '' @ quoted p))
      | None \<Rightarrow>
          if length (parent_of p) < length p then
            (case mkdirSync_recursive fs (parent_of p) of
               Inl e \<Rightarrow> Inl (FsError (''ENOTDIR: not a directory, mkdir '' @ quoted p))
             | Inr fs' \<Rightarrow> Inr ((add_entry fs' (parent_of p) (base_of p))(p \<mapsto> Dir [])))
          else Inr (fs(p \<mapsto> Dir [])))"
  by pat_completeness auto
termination
  by (relation "measure (\<lambda>(fs, p). length p)") auto

declare mkdirSync_recursive.simps [simp del]

text \<open>\<open>fs.writeFileSync(p, content, 'utf-8')\<close>: the directory of \<open>p\<close> must exist.\<close>

definition writeFileSync :: "filesystem \<Rightarrow> string \<Rightarrow> string \<Rightarrow> error + filesystem" where
  "writeFileSync fs p content =
     (case fs p of
        Some (Dir es) \<Rightarrow> Inl (FsError (''EISDIR: illegal operation on a directory, open '' @ quoted p))
      | _ \<Rightarrow>
          (case fs (parent_of p) of
             Some (Dir es) \<Rightarrow> Inr ((add_entry fs (parent_of p) (base_of p))(p \<mapsto> File content))
           | Some (File c) \<Rightarrow> Inl (FsError (''ENOTDIR: not a directory, open '' @ quoted p))
           | None \<Rightarrow> Inl (FsError (''ENOENT: no such file or directory, open '' @ quoted p))))"

text \<open>\<open>fs.copyFileSync(src, dest)\<close>.\<close>

definition copyFileSync :: "filesystem \<Rightarrow> string \<Rightarrow> string \<Rightarrow> error + filesystem" where
  "copyFileSync fs src dest =
     (case fs src of
        Some (File c) \<Rightarrow> writeFileSync fs dest c
      | Some (Dir es) \<Rightarrow> Inl (FsError (''EISDIR: illegal operation on a directory, copyfile '' @ quoted src))
      | None \<Rightarrow> Inl (FsError (''ENOENT: no such file or directory, copyfile '' @ quoted src)))"

text \<open>\<open>fs.rmSync(p, { recursive: true, force: true })\<close>: removes \<open>p\<close> and everything
  below it, and the entry of \<open>p\<close> in its directory.\<close>

definition rmSync_recursive :: "filesystem \<Rightarrow> string \<Rightarrow> filesystem" where
  "rmSync_recursive fs p =
     remove_entry (\<lambda>q. if is_under p q then None else fs q) (parent_of p) (base_of p)"

definition readdirSync :: "filesystem \<Rightarrow> string \<Rightarrow> error + string list" where
  "readdirSync fs p =
     (case fs p of
        Some (Dir es) \<Rightarrow> Inr es
      | Some (File c) \<Rightarrow> Inl (FsError (''ENOTDIR: not a directory, scandir '' @ quoted p))
      | None \<Rightarrow> Inl (FsError (''ENOENT: no such file or directory, scandir '' @ quoted p)))"

text \<open>\<open>fs.lstatSync(p).isDirectory()\<close> and \<open>fs.lstatSync(p).isFile()\<close>.\<close>

definition lstat_isDirectory :: "filesystem \<Rightarrow> string \<Rightarrow> error + bool" where
  "lstat_isDirectory fs p =
     (case fs p of
        Some (Dir es) \<Rightarrow> Inr True
      | Some (File c) \<Rightarrow> Inr False
      | None \<Rightarrow> Inl (FsError (''ENOENT: no such file or directory, lstat '' @ quoted p)))"

definition lstat_isFile :: "filesystem \<Rightarrow> string \<Rightarrow> error + bool" where
  "lstat_isFile fs p =
     (case fs p of
        Some (File c) \<Rightarrow> Inr True
      | Some (Dir es) \<Rightarrow> Inr False
      | None \<Rightarrow> Inl (FsError (''ENOENT: no such file or directory, lstat '' @ quoted p)))"

section \<open>The \<open>path\<close> module\<close>

text \<open>
  The functions of Node's \<open>path\<close> module that the program calls are a parameter of the
  model: \<open>path.resolve\<close> with two arguments and with one, \<open>path.join\<close>,
  \<open>path.relative\<close>, \<open>path.dirname\<close> and \<open>path.extname\<close>.
\<close>

record pathlib =
  path_resolve :: "string \<Rightarrow> string \<Rightarrow> string"
  path_resolve1 :: "string \<Rightarrow> string"
  path_join :: "string \<Rightarrow> string \<Rightarrow> string"
  path_relative :: "string \<Rightarrow> string \<Rightarrow> string"
  path_dirname :: "string \<Rightarrow> string"
  path_extname :: "string \<Rightarrow> string"

text \<open>
  An instance for concrete runs: what the module computes on POSIX for absolute paths
  that are already normalised (no \<open>.\<close> or \<open>..\<close> component, no doubled or trailing
  separator) and for relative paths of plain components.
\<close>

definition posix_resolve :: "string \<Rightarrow> string \<Rightarrow> string" where
  "posix_resolve a b =
     (if b = [] then a
      else if hd b = CHR ''/'' then b
      else if a = ''/'' then a @ b
      else a @ ''/'' @ b)"

definition posix_extname :: "string \<Rightarrow> string" where
  "posix_extname p =
     (let b = base_of p
      in case before_last CHR ''.'' b of
           None \<Rightarrow> []
         | Some stem \<Rightarrow> if stem = [] then [] else drop (length stem) b)"

definition posix :: pathlib where
  "posix = \<lparr> path_resolve = posix_resolve,
             path_resolve1 = (\<lambda>p. p),
             path_join = (\<lambda>a b. a @ ''/'' @ b),
             path_relative = (\<lambda>from to. drop (length from + 1) to),
             path_dirname = parent_of,
             path_extname = posix_extname \<rparr>"

section \<open>Processing files\<close>

text \<open>The state of a run: the disk and the lines written to the console.\<close>

record world =
  disk :: filesystem
  tty :: "console_line list"

text \<open>\<open>String.prototype.toLowerCase\<close> on code units below 256.\<close>

definition toLowerCase_char :: "char \<Rightarrow> char" where
  "toLowerCase_char c =
     (let n = (of_char c :: nat)
      in if (65 \<le> n \<and> n \<le> 90) \<or> (192 \<le> n \<and> n \<le> 222 \<and> n \<noteq> 215) then char_of (n + 32) else c)"

definition toLowerCase :: "string \<Rightarrow> string" where
  "toLowerCase s = map toLowerCase_char s"

definition isTextFile :: "pathlib \<Rightarrow> string \<Rightarrow> string set \<Rightarrow> bool" where
  "isTextFile P filePath textExtensions =
     (let ext = toLowerCase (path_extname P filePath) in ext \<in> textExtensions)"

text \<open>
  \<open>processTextFile\<close>: the body has no \<open>await\<close>, so it runs to its end when called.
  Whatever is thrown inside the \<open>try\<close> is written to the console by the \<open>catch\<close>.
\<close>

definition processTextFile ::
  "pathlib \<Rightarrow> string \<Rightarrow> string \<Rightarrow> string \<Rightarrow> int \<Rightarrow> string \<Rightarrow> world \<Rightarrow> world" where
  "processTextFile P filePath outputDir includeRoot maxRecursion watchRoot w =
     (case resolveIncludes (disk w) (path_resolve P) filePath includeRoot maxRecursion 0 of
        (out, Inl e) \<Rightarrow> w\<lparr>tty := tty w @ out @ [Err (error_message e)]\<rparr>
      | (out, Inr resolvedContent) \<Rightarrow>
          (let relativePath = path_relative P watchRoot filePath;
               outputFilePath = path_join P outputDir relativePath
           in case mkdirSync_recursive (disk w) (path_dirname P outputFilePath) of
                Inl e \<Rightarrow> w\<lparr>tty := tty w @ out @ [Err (error_message e)]\<rparr>
              | Inr fs1 \<Rightarrow>
                  (case writeFileSync fs1 outputFilePath resolvedContent of
                     Inl e \<Rightarrow> w\<lparr>disk := fs1, tty := tty w @ out @ [Err (error_message e)]\<rparr>
                   | Inr fs2 \<Rightarrow>
                       w\<lparr>disk := fs2,
                         tty := tty w @ out @
                           [Log (''Processed text file written to: '' @ outputFilePath)]\<rparr>)))"

definition copyBinaryFile :: "pathlib \<Rightarrow> string \<Rightarrow> string \<Rightarrow> string \<Rightarrow> world \<Rightarrow> world" where
  "copyBinaryFile P filePath outputDir watchRoot w =
     (let relativePath = path_relative P watchRoot filePath;
          outputFilePath = path_join P outputDir relativePath
      in case mkdirSync_recursive (disk w) (path_dirname P outputFilePath) of
           Inl e \<Rightarrow>
             w\<lparr>tty := tty w @ [Err (''Error copying file '' @ filePath @ '': '' @ error_message e)]\<rparr>
         | Inr fs1 \<Rightarrow>
             (case copyFileSync fs1 filePath outputFilePath of
                Inl e \<Rightarrow>
                  w\<lparr>disk := fs1,
                    tty := tty w @
                      [Err (''Error copying file '' @ filePath @ '': '' @ error_message e)]\<rparr>
              | Inr fs2 \<Rightarrow>
                  w\<lparr>disk := fs2, tty := tty w @ [Log (''Copied binary file to: '' @ outputFilePath)]\<rparr>))"

text \<open>
  The \<open>for\<close> loop of \<open>processDirectory\<close> over the entries still to visit. \<open>rec\<close> is the
  nested call of \<open>processDirectory\<close> on a subdirectory. \<open>readdirSync\<close> and \<open>lstatSync\<close>
  are not inside a \<open>try\<close>: what they throw ends the walk, and the result carries it.
  \<open>None\<close> is a walk that has not returned.
\<close>

fun processEntries ::
  "(string \<Rightarrow> world \<Rightarrow> (world \<times> error option) option) \<Rightarrow> pathlib \<Rightarrow> string \<Rightarrow> string \<Rightarrow>
   string set \<Rightarrow> string \<Rightarrow> int \<Rightarrow> string \<Rightarrow> string list \<Rightarrow> world \<Rightarrow>
   (world \<times> error option) option" where
  "processEntries rec P inputDir outputDir textExtensions includeRoot maxRecursion watchRoot
     [] w = Some (w, None)"
| "processEntries rec P inputDir outputDir textExtensions includeRoot maxRecursion watchRoot
     (file # files) w =
     (let filePath = path_join P inputDir file in
      if startsWith (path_resolve1 P filePath) (path_resolve1 P outputDir) then
        processEntries rec P inputDir outputDir textExtensions includeRoot maxRecursion
          watchRoot files w
      else
        (case lstat_isDirectory (disk w) filePath of
           Inl e \<Rightarrow> Some (w, Some e)
         | Inr True \<Rightarrow>
             (case rec filePath w of
                None \<Rightarrow> None
              | Some (w', Some e) \<Rightarrow> Some (w', Some e)
              | Some (w', None) \<Rightarrow>
                  processEntries rec P inputDir outputDir textExtensions includeRoot
                    maxRecursion watchRoot files w')
         | Inr False \<Rightarrow>
             if isTextFile P filePath textExtensions then
               processEntries rec P inputDir outputDir textExtensions includeRoot maxRecursion
                 watchRoot files
                 (processTextFile P filePath outputDir includeRoot maxRecursion watchRoot w)
             else
               processEntries rec P inputDir outputDir textExtensions includeRoot maxRecursion
                 watchRoot files (copyBinaryFile P filePath outputDir watchRoot w)))"

text \<open>\<open>processDirectory\<close>, with the depth of nested directories bounded by the first
  argument.\<close>

fun processDirectory ::
  "nat \<Rightarrow> pathlib \<Rightarrow> string \<Rightarrow> string \<Rightarrow> string set \<Rightarrow> string \<Rightarrow> int \<Rightarrow> string \<Rightarrow> world \<Rightarrow>
   (world \<times> error option) option" where
  "processDirectory 0 P inputDir outputDir textExtensions includeRoot maxRecursion watchRoot w =
     None"
| "processDirectory (Suc n) P inputDir outputDir textExtensions includeRoot maxRecursion
     watchRoot w =
     (case readdirSync (disk w) inputDir of
        Inl e \<Rightarrow> Some (w, Some e)
      | Inr files \<Rightarrow>
          processEntries
            (\<lambda>d w'. processDirectory n P d outputDir textExtensions includeRoot maxRecursion
                      watchRoot w')
            P inputDir outputDir textExtensions includeRoot maxRecursion watchRoot files w)"

text \<open>
  The callback that \<open>watchDirectory\<close> registers with \<open>fs.watch\<close>, for one event. The file
  name of an event may be \<open>null\<close>; an empty name is falsy as well.
\<close>

definition watch_callback ::
  "pathlib \<Rightarrow> string \<Rightarrow> string \<Rightarrow> string set \<Rightarrow> string \<Rightarrow> int \<Rightarrow> string \<Rightarrow>
   string \<Rightarrow> string option \<Rightarrow> world \<Rightarrow> world" where
  "watch_callback P directory outputDir textExtensions includeRoot maxRecursion watchRoot
     eventType filename w =
     (let w1 = w\<lparr>tty := tty w @
                 [Log (eventType @ '' '' @ (case filename of None \<Rightarrow> ''null'' | Some f \<Rightarrow> f))]\<rparr>
      in case filename of
           None \<Rightarrow> w1
         | Some f \<Rightarrow>
             if f = [] then w1
             else
               (let filePath = path_join P directory f in
                if startsWith (path_resolve1 P filePath) (path_resolve1 P outputDir) then w1
                else if existsSync (disk w1) filePath \<and> lstat_isFile (disk w1) filePath = Inr True
                then
                  if isTextFile P filePath textExtensions then
                    processTextFile P filePath outputDir includeRoot maxRecursion watchRoot
                      (w1\<lparr>tty := tty w1 @ [Log (''Text file changed: '' @ filePath)]\<rparr>)
                  else
                    copyBinaryFile P filePath outputDir watchRoot
                      (w1\<lparr>tty := tty w1 @ [Log (''Binary file changed: '' @ filePath)]\<rparr>)
                else w1))"

text \<open>The events of a run, one after the other.\<close>

fun watch_events ::
  "pathlib \<Rightarrow> string \<Rightarrow> string \<Rightarrow> string set \<Rightarrow> string \<Rightarrow> int \<Rightarrow> string \<Rightarrow>
   (string \<times> string option) list \<Rightarrow> world \<Rightarrow> world" where
  "watch_events P directory outputDir textExtensions includeRoot maxRecursion watchRoot [] w = w"
| "watch_events P directory outputDir textExtensions includeRoot maxRecursion watchRoot
     ((eventType, filename) # events) w =
     watch_events P directory outputDir textExtensions includeRoot maxRecursion watchRoot events
       (watch_callback P directory outputDir textExtensions includeRoot maxRecursion watchRoot
          eventType filename w)"

text \<open>\<open>resetOutputDirectory\<close>; \<open>mkdirSync\<close> is not inside a \<open>try\<close>.\<close>

definition resetOutputDirectory :: "string \<Rightarrow> bool \<Rightarrow> world \<Rightarrow> world \<times> error option" where
  "resetOutputDirectory outputDir skipDelete w =
     (if \<not> skipDelete then
        (let w1 = (if existsSync (disk w) outputDir
                   then w\<lparr>disk := rmSync_recursive (disk w) outputDir,
                          tty := tty w @ [Log (''Removed existing output directory: '' @ outputDir)]\<rparr>
                   else w)
         in case mkdirSync_recursive (disk w1) outputDir of
              Inl e \<Rightarrow> (w1, Some e)
            | Inr fs' \<Rightarrow>
                (w1\<lparr>disk := fs',
                    tty := tty w1 @ [Log (''Recreated output directory: '' @ outputDir)]\<rparr>, None))
      else
        (w\<lparr>tty := tty w @ [Log (''Skipped deleting existing output directory: '' @ outputDir)]\<rparr>,
         None))"

section \<open>Notions of the specification and example runs\<close>

text \<open>Line-terminator normalisation in the words of the specification: every LF and every
  CR LF becomes the one terminator LF; nothing else changes.\<close>

fun normalize_eol :: "string \<Rightarrow> string" where
  "normalize_eol [] = []"
| "normalize_eol [c] = [c]"
| "normalize_eol (c # d # cs) =
     (if c = CR \<and> d = LF then LF # normalize_eol cs else c # normalize_eol (d # cs))"

text \<open>The include target in the words of the specification: the text between the first
  \<open><\<close> of the line and the next \<open>>\<close>.\<close>

definition spec_target :: "string \<Rightarrow> string" where
  "spec_target line =
     takeWhile (\<lambda>c. c \<noteq> CHR ''>'') (tl (dropWhile (\<lambda>c. c \<noteq> CHR ''<'') line))"

text \<open>A watch root \<open>/w\<close> with \<open>a.html\<close> including \<open>b.html\<close>.\<close>

definition fs_hello :: filesystem where
  "fs_hello =
     [''/'' \<mapsto> Dir [''w''],
      ''/w'' \<mapsto> Dir [''a.html'', ''b.html''],
      ''/w/a.html'' \<mapsto> File ''##include <b.html>'',
      ''/w/b.html'' \<mapsto> File ''Hello'']"

text \<open>A text file of two lines, the first ended by CR LF, the second by LF.\<close>

definition fs_plain :: filesystem where
  "fs_plain = [''/w/a.txt'' \<mapsto> File (''a'' @ [CR, LF] @ ''b'' @ [LF])]"

text \<open>The default text extensions of \<open>parseArguments\<close>.\<close>

definition default_extensions :: "string set" where
  "default_extensions = set [''.txt'', ''.html'', ''.js'', ''.css'', ''.json'', ''.md'', ''.sql'']"

text \<open>The resolved targets of the well-formed directive lines among \<open>lines\<close>, in order, and
  those of a file content.\<close>

fun line_targets :: "(string \<Rightarrow> string \<Rightarrow> string) \<Rightarrow> string \<Rightarrow> string list \<Rightarrow> string list" where
  "line_targets resolve includeRoot [] = []"
| "line_targets resolve includeRoot (line # lines) =
     (if startsWith line marker then
        (case regex_match line of
           Some target \<Rightarrow> resolve includeRoot target # line_targets resolve includeRoot lines
         | None \<Rightarrow> line_targets resolve includeRoot lines)
      else line_targets resolve includeRoot lines)"

definition directive_targets :: "(string \<Rightarrow> string \<Rightarrow> string) \<Rightarrow> string \<Rightarrow> string \<Rightarrow> string list" where
  "directive_targets resolve includeRoot fileContent =
     line_targets resolve includeRoot (split_lines fileContent)"

text \<open>
  A linear chain of nested includes: every file of the list but the last is a regular
  file with exactly one well-formed directive, whose target is the next file of the list;
  the last is a regular file with none. A chain of \<open>N\<close> includes has \<open>N + 1\<close> files.
\<close>

fun include_chain ::
  "filesystem \<Rightarrow> (string \<Rightarrow> string \<Rightarrow> string) \<Rightarrow> string \<Rightarrow> string list \<Rightarrow> bool" where
  "include_chain fs resolve includeRoot [] = False"
| "include_chain fs resolve includeRoot [p] =
     (case fs p of
        Some (File c) \<Rightarrow> directive_targets resolve includeRoot c = []
      | _ \<Rightarrow> False)"
| "include_chain fs resolve includeRoot (p # q # ps) =
     (case fs p of
        Some (File c) \<Rightarrow>
          directive_targets resolve includeRoot c = [q] \<and>
          include_chain fs resolve includeRoot (q # ps)
      | _ \<Rightarrow> False)"

text \<open>\<open>p\<close> includes \<open>q\<close>: \<open>p\<close> is a regular file with a well-formed directive whose target
  resolves to \<open>q\<close>, and \<open>q\<close> exists. A file includes itself, directly or through a chain,
  when it is related to itself in the transitive closure.\<close>

definition includes_file ::
  "filesystem \<Rightarrow> (string \<Rightarrow> string \<Rightarrow> string) \<Rightarrow> string \<Rightarrow> string \<Rightarrow> string \<Rightarrow> bool" where
  "includes_file fs resolve includeRoot p q =
     (case fs p of
        Some (File c) \<Rightarrow> q \<in> set (directive_targets resolve includeRoot c) \<and> existsSync fs q
      | _ \<Rightarrow> False)"

text \<open>No directive of a file reached from \<open>filePath\<close> through includes, \<open>filePath\<close>
  itself among them, names a directory.\<close>

definition no_directory_reached ::
  "filesystem \<Rightarrow> (string \<Rightarrow> string \<Rightarrow> string) \<Rightarrow> string \<Rightarrow> string \<Rightarrow> bool" where
  "no_directory_reached fs resolve includeRoot filePath =
     (\<forall>p c q es. rtranclp (includes_file fs resolve includeRoot) filePath p \<longrightarrow>
        fs p = Some (File c) \<longrightarrow> q \<in> set (directive_targets resolve includeRoot c) \<longrightarrow>
        fs q \<noteq> Some (Dir es))"

text \<open>The number of \<open>catch\<close> blocks an error went through: the number of nested calls of
  \<open>resolveIncludes\<close> between the call that threw and the one that returned the error.\<close>

fun nesting :: "error \<Rightarrow> nat" where
  "nesting (ProcessingError filePath e) = Suc (nesting e)"
| "nesting e = 0"

text \<open>A file with a malformed directive and one with a directive to a missing target.\<close>

definition fs_broken :: filesystem where
  "fs_broken =
     [''/w/m.html'' \<mapsto> File (''x'' @ [LF] @ ''##include b.html'' @ [LF] @ ''y''),
      ''/w/n.html'' \<mapsto> File (''x'' @ [LF] @ ''##include <gone.html>'' @ [LF] @ ''y'')]"

text \<open>A chain of two nested includes.\<close>

definition fs_chain :: filesystem where
  "fs_chain =
     [''/w/f0.html'' \<mapsto> File (''top'' @ [LF] @ ''##include <f1.html>''),
      ''/w/f1.html'' \<mapsto> File (''##include <f2.html>'' @ [LF] @ ''mid''),
      ''/w/f2.html'' \<mapsto> File ''leaf'']"

text \<open>Two files that include each other.\<close>

definition fs_cycle :: filesystem where
  "fs_cycle =
     [''/w'' \<mapsto> Dir [''a.html'', ''b.html''],
      ''/w/a.html'' \<mapsto> File (''A'' @ [LF] @ ''##include <b.html>''),
      ''/w/b.html'' \<mapsto> File (''##include <a.html>'' @ [LF] @ ''B'')]"

text \<open>A file that includes a directory and then itself.\<close>

definition fs_subdir :: filesystem where
  "fs_subdir =
     [''/w'' \<mapsto> Dir [''a.html'', ''sub''],
      ''/w/sub'' \<mapsto> Dir [],
      ''/w/a.html'' \<mapsto> File (''##include <sub>'' @ [LF] @ ''##include <a.html>'')]"

text \<open>An output root \<open>/w/dist\<close> with a stale file.\<close>

definition fs_stale :: filesystem where
  "fs_stale =
     [''/'' \<mapsto> Dir [''w''],
      ''/w'' \<mapsto> Dir [''a.html'', ''dist''],
      ''/w/a.html'' \<mapsto> File ''A'',
      ''/w/dist'' \<mapsto> Dir [''old.txt''],
      ''/w/dist/old.txt'' \<mapsto> File ''stale'']"

text \<open>An output root \<open>/w/dist\<close> beside a directory \<open>/w/dist2\<close> of the input tree.\<close>

definition fs_sibling :: filesystem where
  "fs_sibling =
     [''/'' \<mapsto> Dir [''w''],
      ''/w'' \<mapsto> Dir [''dist'', ''dist2''],
      ''/w/dist'' \<mapsto> Dir [],
      ''/w/dist2'' \<mapsto> Dir [''x.html''],
      ''/w/dist2/x.html'' \<mapsto> File ''X'']"

section \<open>Lemmas on lines and on the loop\<close>

lemma split_lines_not_Nil: "split_lines s \<noteq> []"
  by (induction s rule: split_lines.induct) (auto split: list.splits)

lemma concat_split_lines:
  "concat (map (\<lambda>l. l @ [LF]) (split_lines c)) = normalize_eol c @ [LF]"
  by (induction c rule: split_lines.induct) (auto split: list.splits simp: split_lines_not_Nil)

text \<open>The loop over \<open>xs @ ys\<close> is the loop over \<open>xs\<close> and then, unless that threw, the loop
  over \<open>ys\<close> from where it ended.\<close>

lemma include_loop_append:
  "include_loop rec fs resolve includeRoot (xs @ ys) console content =
     (case include_loop rec fs resolve includeRoot xs console content of
        (out, Inl e) \<Rightarrow> (out, Inl e)
      | (out, Inr s) \<Rightarrow> include_loop rec fs resolve includeRoot ys out s)"
  by (induction xs arbitrary: console content)
     (auto split: option.splits prod.splits sum.splits simp: Let_def)

lemma include_loop_plain:
  "\<forall>l \<in> set lines. \<not> startsWith l marker \<Longrightarrow>
   include_loop rec fs resolve includeRoot lines console content =
     (console, Inr (content @ concat (map (\<lambda>l. l @ [LF]) lines)))"
  by (induction lines arbitrary: console content) auto

lemma resolveIncludes_unfold:
  assumes "fs filePath = Some (File fileContent)" "currentDepth \<le> maxRecursion"
  shows "resolveIncludes fs resolve filePath includeRoot maxRecursion currentDepth =
     (case include_loop
             (\<lambda>p. resolveIncludes fs resolve p includeRoot maxRecursion (currentDepth + 1))
             fs resolve includeRoot (split_lines fileContent) [] [] of
        (out, Inl e) \<Rightarrow> (out, Inl (ProcessingError filePath e))
      | (out, Inr resolvedContent) \<Rightarrow> (out, Inr resolvedContent))"
  using assms by (subst resolveIncludes.simps) (simp add: readFileSync_def)

lemma resolveIncludes_plain:
  assumes "fs filePath = Some (File fileContent)"
    and "\<forall>line \<in> set (split_lines fileContent). \<not> startsWith line marker"
    and "currentDepth \<le> maxRecursion"
  shows "resolveIncludes fs resolve filePath includeRoot maxRecursion currentDepth =
           ([], Inr (normalize_eol fileContent @ [LF]))"
  using assms(2)
  by (simp add: resolveIncludes_unfold[where fs = fs and filePath = filePath, OF assms(1,3)]
      include_loop_plain concat_split_lines)

text \<open>A file whose other lines are plain text, when the step of the loop on \<open>line\<close> adds
  \<open>diag\<close> to the console and \<open>added\<close> to the content.\<close>

lemma resolveIncludes_around:
  assumes isfile: "fs filePath = Some (File fileContent)"
    and split: "split_lines fileContent = pre @ line # post"
    and plain: "\<forall>l \<in> set (pre @ post). \<not> startsWith l marker"
    and depth: "currentDepth \<le> maxRecursion"
    and step: "\<And>lines console content.
      include_loop (\<lambda>p. resolveIncludes fs resolve p includeRoot maxRecursion (currentDepth + 1))
        fs resolve includeRoot (line # lines) console content =
      include_loop (\<lambda>p. resolveIncludes fs resolve p includeRoot maxRecursion (currentDepth + 1))
        fs resolve includeRoot lines (console @ diag) (content @ added)"
  shows "resolveIncludes fs resolve filePath includeRoot maxRecursion currentDepth =
           (diag, Inr (concat (map (\<lambda>l. l @ [LF]) pre) @ added @
                       concat (map (\<lambda>l. l @ [LF]) post)))"
proof -
  let ?R = "\<lambda>p. resolveIncludes fs resolve p includeRoot maxRecursion (currentDepth + 1)"
  have pre: "\<forall>l \<in> set pre. \<not> startsWith l marker"
    and post: "\<forall>l \<in> set post. \<not> startsWith l marker"
    using plain by auto
  have "include_loop ?R fs resolve includeRoot (pre @ line # post) [] [] =
        include_loop ?R fs resolve includeRoot (line # post) []
          (concat (map (\<lambda>l. l @ [LF]) pre))"
    by (simp add: include_loop_append include_loop_plain[OF pre] del: include_loop.simps)
  also have "\<dots> = include_loop ?R fs resolve includeRoot post ([] @ diag)
          (concat (map (\<lambda>l. l @ [LF]) pre) @ added)"
    by (rule step)
  also have "\<dots> = (diag, Inr (concat (map (\<lambda>l. l @ [LF]) pre) @ added @
                       concat (map (\<lambda>l. l @ [LF]) post)))"
    by (simp add: include_loop_plain[OF post])
  finally show ?thesis
    using split
    by (simp add: resolveIncludes_unfold[where fs = fs and filePath = filePath, OF isfile depth])
qed

lemma include_loop_step_include:
  assumes "startsWith line marker" "regex_match line = Some target"
    "fs (resolve includeRoot target) = Some (File c)"
    "\<forall>l \<in> set (split_lines c). \<not> startsWith l marker"
    "currentDepth + 1 \<le> maxRecursion"
  shows "include_loop (\<lambda>p. resolveIncludes fs resolve p includeRoot maxRecursion (currentDepth + 1))
            fs resolve includeRoot (line # lines) console content =
         include_loop (\<lambda>p. resolveIncludes fs resolve p includeRoot maxRecursion (currentDepth + 1))
            fs resolve includeRoot lines console (content @ normalize_eol c @ [LF, LF])"
  using assms(1,2,3)
  by (simp add: existsSync_def
      resolveIncludes_plain[where fs = fs and filePath = "resolve includeRoot target",
        OF assms(3,4,5)])

section \<open>Lemmas on the directive pattern\<close>

lemma before_last_append:
  "c \<notin> set ys \<Longrightarrow> before_last c (xs @ c # ys) = Some xs"
proof -
  assume a: "c \<notin> set ys"
  have "dropWhile (\<lambda>x. x \<noteq> c) (rev ys @ c # rev xs) = c # rev xs"
    using a by (subst dropWhile_append2) auto
  then show ?thesis by (simp add: before_last_def)
qed

lemma match_here_directive:
  assumes "ws \<noteq> []" "\<forall>c \<in> set ws. is_space c" "t \<noteq> []"
    "\<forall>c \<in> set t. \<not> is_line_terminator c" "CHR ''>'' \<notin> set r"
  shows "match_here (marker @ ws @ ''<'' @ t @ ''>'' @ r) = Some t"
proof -
  obtain x t' where t: "t = x # t'" using assms(3) by (cases t) auto
  have sp: "\<not> is_space CHR ''<''" by (simp add: is_space_def)
  have tw: "takeWhile is_space (ws @ CHR ''<'' # t @ CHR ''>'' # r) = ws"
    using assms(2) sp by (simp add: takeWhile_append2)
  have dw: "dropWhile is_space (ws @ CHR ''<'' # t @ CHR ''>'' # r) = CHR ''<'' # t @ CHR ''>'' # r"
    using assms(2) sp by (simp add: dropWhile_append2)
  have gt: "\<not> is_line_terminator CHR ''>''" by (simp add: is_line_terminator_def)
  have run: "takeWhile (\<lambda>c. \<not> is_line_terminator c) (t @ CHR ''>'' # r) =
      x # t' @ CHR ''>'' # takeWhile (\<lambda>c. \<not> is_line_terminator c) r"
    using assms(4) gt t by (simp add: takeWhile_append2)
  have nogt: "CHR ''>'' \<notin> set (takeWhile (\<lambda>c. \<not> is_line_terminator c) r)"
    using assms(5) by (meson set_takeWhileD)
  show ?thesis
    using assms(1) tw dw run nogt t
    by (simp add: match_here_def Let_def before_last_append)
qed

lemma regex_match_directive:
  assumes "ws \<noteq> []" "\<forall>c \<in> set ws. is_space c" "t \<noteq> []"
    "\<forall>c \<in> set t. \<not> is_line_terminator c" "CHR ''>'' \<notin> set r"
  shows "regex_match (marker @ ws @ ''<'' @ t @ ''>'' @ r) = Some t"
proof -
  have "marker @ ws @ ''<'' @ t @ ''>'' @ r = CHR ''#'' # tl (marker @ ws @ ''<'' @ t @ ''>'' @ r)"
    by (simp add: marker_def)
  then obtain cs where eq: "marker @ ws @ ''<'' @ t @ ''>'' @ r = CHR ''#'' # cs" by blast
  have "match_here (CHR ''#'' # cs) = Some t"
    using match_here_directive[OF assms] eq by simp
  then have "regex_match (CHR ''#'' # cs) = Some t" by simp
  then show ?thesis using eq by simp
qed

section \<open>Lemmas on failing and succeeding loops\<close>

lemma loop_no_targets:
  "line_targets resolve includeRoot lines = [] \<Longrightarrow>
   \<exists>out s. include_loop rec fs resolve includeRoot lines console content = (out, Inr s)"
  by (induction lines arbitrary: console content) (auto split: option.splits if_splits)

lemma loop_target_fails:
  "q \<in> set (line_targets resolve includeRoot lines) \<Longrightarrow> existsSync fs q \<Longrightarrow>
   rec q = (o1, Inl e1) \<Longrightarrow>
   \<exists>out e. include_loop rec fs resolve includeRoot lines console content = (out, Inl e)"
proof (induction lines arbitrary: console content)
  case Nil
  then show ?case by simp
next
  case (Cons line lines)
  show ?case
  proof (cases "startsWith line marker")
    case False
    then show ?thesis using Cons by simp
  next
    case True
    show ?thesis
    proof (cases "regex_match line")
      case None
      then show ?thesis using True Cons by simp
    next
      case (Some t)
      show ?thesis
      proof (cases "existsSync fs (resolve includeRoot t)")
        case False
        then have "q \<noteq> resolve includeRoot t" using Cons.prems(2) by auto
        then show ?thesis using True Some False Cons by simp
      next
        case ex: True
        obtain o2 r2 where r: "rec (resolve includeRoot t) = (o2, r2)" by (cases "rec (resolve includeRoot t)")
        show ?thesis
        proof (cases r2)
          case (Inl e2)
          then show ?thesis using True Some ex r by simp
        next
          case (Inr s2)
          then have "q \<noteq> resolve includeRoot t" using r Cons.prems(3) by auto
          then have "q \<in> set (line_targets resolve includeRoot lines)"
            using Cons.prems(1) True Some by simp
          from Cons.IH[OF this Cons.prems(2,3)] show ?thesis
            using True Some ex r Inr by simp
        qed
      qed
    qed
  qed
qed

lemma loop_error_from_rec:
  "include_loop rec fs resolve includeRoot lines console content = (out, Inl e) \<Longrightarrow>
   \<exists>q o1. q \<in> set (line_targets resolve includeRoot lines) \<and> existsSync fs q \<and> rec q = (o1, Inl e)"
proof (induction lines arbitrary: console content)
  case Nil
  then show ?case by simp
next
  case (Cons line lines)
  show ?case
  proof (cases "startsWith line marker")
    case False
    then have "include_loop rec fs resolve includeRoot lines console (content @ line @ [LF]) =
        (out, Inl e)"
      using Cons.prems by simp
    from Cons.IH[OF this] show ?thesis using False by auto
  next
    case True
    show ?thesis
    proof (cases "regex_match line")
      case None
      then have "include_loop rec fs resolve includeRoot lines
          (console @ [Err (''Error: Malformed include directive - '' @ line)]) content =
        (out, Inl e)"
        using True Cons.prems by simp
      from Cons.IH[OF this] show ?thesis using True None by auto
    next
      case (Some t)
      show ?thesis
      proof (cases "existsSync fs (resolve includeRoot t)")
        case False
        then have "include_loop rec fs resolve includeRoot lines
            (console @ [Err (''Error: File not found - '' @ resolve includeRoot t)]) content =
          (out, Inl e)"
          using True Some Cons.prems by simp
        from Cons.IH[OF this] show ?thesis using True Some by auto
      next
        case ex: True
        obtain o2 r2 where r: "rec (resolve includeRoot t) = (o2, r2)"
          by (cases "rec (resolve includeRoot t)")
        show ?thesis
        proof (cases r2)
          case (Inl e2)
          then have "e2 = e" using True Some ex r Cons.prems by simp
          then show ?thesis using True Some ex r Inl by auto
        next
          case (Inr s2)
          then have "include_loop rec fs resolve includeRoot lines (console @ o2)
              (content @ s2 @ [LF]) = (out, Inl e)"
            using True Some ex r Cons.prems by simp
          from Cons.IH[OF this] show ?thesis using True Some by auto
        qed
      qed
    qed
  qed
qed

lemma loop_one_target_ok:
  "line_targets resolve includeRoot lines = [q] \<Longrightarrow> existsSync fs q \<Longrightarrow> rec q = (o1, Inr s1) \<Longrightarrow>
   \<exists>out s. include_loop rec fs resolve includeRoot lines console content = (out, Inr s)"
proof -
  assume a: "line_targets resolve includeRoot lines = [q]" "existsSync fs q" "rec q = (o1, Inr s1)"
  obtain out r where r: "include_loop rec fs resolve includeRoot lines console content = (out, r)"
    by (cases "include_loop rec fs resolve includeRoot lines console content")
  show ?thesis
  proof (cases r)
    case (Inl e)
    from loop_error_from_rec[OF r[unfolded Inl]] a show ?thesis by auto
  next
    case (Inr s)
    then show ?thesis using r by simp
  qed
qed

lemma loop_one_target_err:
  "line_targets resolve includeRoot lines = [q] \<Longrightarrow> existsSync fs q \<Longrightarrow> rec q = (o1, Inl e1) \<Longrightarrow>
   \<exists>out. include_loop rec fs resolve includeRoot lines console content = (out, Inl e1)"
proof -
  assume a: "line_targets resolve includeRoot lines = [q]" "existsSync fs q" "rec q = (o1, Inl e1)"
  have "q \<in> set (line_targets resolve includeRoot lines)" using a by simp
  from loop_target_fails[where rec = rec, OF this a(2,3)]
  obtain out e where r: "include_loop rec fs resolve includeRoot lines console content = (out, Inl e)"
    by blast
  from loop_error_from_rec[OF r] a have "e = e1" by auto
  then show ?thesis using r by blast
qed

lemma chain_exists:
  "include_chain fs resolve includeRoot (q # ps) \<Longrightarrow> existsSync fs q"
  by (cases ps) (auto simp: existsSync_def split: option.splits)

lemma chain_succeeds:
  "include_chain fs resolve includeRoot ps \<Longrightarrow> d + int (length ps) - 1 \<le> m \<Longrightarrow>
   \<exists>out s. resolveIncludes fs resolve (hd ps) includeRoot m d = (out, Inr s)"
proof (induction fs resolve includeRoot ps arbitrary: d rule: include_chain.induct)
  case (1 fs resolve includeRoot)
  then show ?case by simp
next
  case (2 fs resolve includeRoot p)
  then obtain c where c: "fs p = Some (File c)" "directive_targets resolve includeRoot c = []"
    by (auto split: option.splits node.splits)
  have d: "d \<le> m" using 2 by simp
  from loop_no_targets[OF c(2)[unfolded directive_targets_def]]
  obtain out s where
    "include_loop (\<lambda>p. resolveIncludes fs resolve p includeRoot m (d + 1)) fs resolve includeRoot
       (split_lines c) [] [] = (out, Inr s)"
    by blast
  then show ?case
    by (simp add: resolveIncludes_unfold[where fs = fs and filePath = p, OF c(1) d])
next
  case (3 fs resolve includeRoot p q ps)
  then obtain c where c: "fs p = Some (File c)" "directive_targets resolve includeRoot c = [q]"
      "include_chain fs resolve includeRoot (q # ps)"
    by (auto split: option.splits node.splits)
  have d: "d \<le> m" using 3 by simp
  have ex: "existsSync fs q" using c(3) by (rule chain_exists)
  have "\<exists>out s. resolveIncludes fs resolve (hd (q # ps)) includeRoot m (d + 1) = (out, Inr s)"
    using "3.IH"[OF c(1) refl c(3), of "d + 1"] "3.prems" by simp
  then obtain o1 s1 where "resolveIncludes fs resolve q includeRoot m (d + 1) = (o1, Inr s1)" by auto
  from loop_one_target_ok[where rec = "\<lambda>p. resolveIncludes fs resolve p includeRoot m (d + 1)",
      OF c(2)[unfolded directive_targets_def] ex this]
  obtain out s where
    "include_loop (\<lambda>p. resolveIncludes fs resolve p includeRoot m (d + 1)) fs resolve includeRoot
       (split_lines c) [] [] = (out, Inr s)"
    by blast
  then show ?case
    by (simp add: resolveIncludes_unfold[where fs = fs and filePath = p, OF c(1) d])
qed

lemma chain_fails:
  "include_chain fs resolve includeRoot ps \<Longrightarrow> d + int (length ps) - 1 = m + 1 \<Longrightarrow>
   \<exists>out. resolveIncludes fs resolve (hd ps) includeRoot m d =
     (out, Inl (foldr ProcessingError (butlast ps) (MaxRecursionExceeded (last ps))))"
proof (induction fs resolve includeRoot ps arbitrary: d rule: include_chain.induct)
  case (1 fs resolve includeRoot)
  then show ?case by simp
next
  case (2 fs resolve includeRoot p)
  then have "m < d" by simp
  then show ?case by (simp add: resolveIncludes.simps)
next
  case (3 fs resolve includeRoot p q ps)
  then obtain c where c: "fs p = Some (File c)" "directive_targets resolve includeRoot c = [q]"
      "include_chain fs resolve includeRoot (q # ps)"
    by (auto split: option.splits node.splits)
  have d: "d \<le> m" using 3 by simp
  have ex: "existsSync fs q" using c(3) by (rule chain_exists)
  have "\<exists>out. resolveIncludes fs resolve (hd (q # ps)) includeRoot m (d + 1) =
      (out, Inl (foldr ProcessingError (butlast (q # ps)) (MaxRecursionExceeded (last (q # ps)))))"
    using "3.IH"[OF c(1) refl c(3), of "d + 1"] "3.prems" by simp
  then obtain o1 where "resolveIncludes fs resolve q includeRoot m (d + 1) =
      (o1, Inl (foldr ProcessingError (butlast (q # ps)) (MaxRecursionExceeded (last (q # ps)))))"
    by auto
  from loop_one_target_err[where rec = "\<lambda>p. resolveIncludes fs resolve p includeRoot m (d + 1)",
      OF c(2)[unfolded directive_targets_def] ex this]
  obtain out where
    "include_loop (\<lambda>p. resolveIncludes fs resolve p includeRoot m (d + 1)) fs resolve includeRoot
       (split_lines c) [] [] =
     (out, Inl (foldr ProcessingError (butlast (q # ps)) (MaxRecursionExceeded (last (q # ps)))))"
    by blast
  then show ?case
    by (simp add: resolveIncludes_unfold[where fs = fs and filePath = p, OF c(1) d])
qed

lemma cycle_successor:
  assumes "tranclp R p p"
  shows "\<exists>q. R p q \<and> tranclp R q q"
proof -
  from tranclpD[OF assms] obtain q where q: "R p q" "rtranclp R q p" by blast
  from rtranclp_into_tranclp1[OF q(2) q(1)] q(1) show ?thesis by blast
qed

lemma cycle_fails:
  "tranclp (includes_file fs resolve includeRoot) filePath filePath \<Longrightarrow>
   \<exists>out e. resolveIncludes fs resolve filePath includeRoot maxRecursion currentDepth = (out, Inl e)"
proof (induction fs resolve filePath includeRoot maxRecursion currentDepth
    rule: resolveIncludes.induct)
  case (1 fs resolve filePath includeRoot maxRecursion currentDepth)
  show ?case
  proof (cases "maxRecursion < currentDepth")
    case True
    then show ?thesis by (simp add: resolveIncludes.simps)
  next
    case False
    from cycle_successor[OF "1.prems"] obtain q where
      q: "includes_file fs resolve includeRoot filePath q"
        "tranclp (includes_file fs resolve includeRoot) q q"
      by blast
    from q(1) obtain c where c: "fs filePath = Some (File c)"
        "q \<in> set (line_targets resolve includeRoot (split_lines c))" "existsSync fs q"
      by (auto simp: includes_file_def directive_targets_def split: option.splits node.splits)
    have rd: "readFileSync fs filePath = Inr c" using c(1) by (simp add: readFileSync_def)
    from "1.IH"[OF False rd q(2)] obtain o1 e1 where
      "resolveIncludes fs resolve q includeRoot maxRecursion (currentDepth + 1) = (o1, Inl e1)"
      by blast
    from loop_target_fails
      [where rec = "\<lambda>p. resolveIncludes fs resolve p includeRoot maxRecursion (currentDepth + 1)",
        OF c(2,3) this]
    obtain out e where
      "include_loop (\<lambda>p. resolveIncludes fs resolve p includeRoot maxRecursion (currentDepth + 1))
         fs resolve includeRoot (split_lines c) [] [] = (out, Inl e)"
      by blast
    moreover have "currentDepth \<le> maxRecursion" using False by simp
    ultimately show ?thesis
      by (simp add: resolveIncludes_unfold[where fs = fs and filePath = filePath, OF c(1)])
  qed
qed

lemma errors_are_depth_errors:
  "no_directory_reached fs resolve includeRoot filePath \<Longrightarrow> fs filePath = Some (File c) \<Longrightarrow>
   resolveIncludes fs resolve filePath includeRoot maxRecursion currentDepth = (out, Inl e) \<Longrightarrow>
   (\<exists>q. root_cause e = MaxRecursionExceeded q) \<and>
   int (nesting e) = max 0 (maxRecursion + 1 - currentDepth)"
proof (induction fs resolve filePath includeRoot maxRecursion currentDepth arbitrary: c out e
    rule: resolveIncludes.induct)
  case (1 fs resolve filePath includeRoot maxRecursion currentDepth)
  show ?case
  proof (cases "maxRecursion < currentDepth")
    case True
    then show ?thesis using "1.prems"(3) by (auto simp: resolveIncludes.simps)
  next
    case False
    then have d: "currentDepth \<le> maxRecursion" by simp
    have rd: "readFileSync fs filePath = Inr c" using "1.prems"(2) by (simp add: readFileSync_def)
    let ?R = "\<lambda>p. resolveIncludes fs resolve p includeRoot maxRecursion (currentDepth + 1)"
    obtain o2 r2 where l: "include_loop ?R fs resolve includeRoot (split_lines c) [] [] = (o2, r2)"
      by (cases "include_loop ?R fs resolve includeRoot (split_lines c) [] []")
    from "1.prems"(3) l obtain e' where e': "r2 = Inl e'" "e = ProcessingError filePath e'"
      by (cases r2)
         (auto simp: resolveIncludes_unfold[where fs = fs and filePath = filePath, OF "1.prems"(2) d])
    from loop_error_from_rec[OF l[unfolded e'(1)]] obtain q o1 where
      q: "q \<in> set (line_targets resolve includeRoot (split_lines c))" "existsSync fs q"
        "?R q = (o1, Inl e')"
      by blast
    have step: "includes_file fs resolve includeRoot filePath q"
      using "1.prems"(2) q(1,2) by (simp add: includes_file_def directive_targets_def)
    have "\<exists>c'. fs q = Some (File c')"
    proof (cases "fs q")
      case None
      then show ?thesis using q(2) by (simp add: existsSync_def)
    next
      case (Some n)
      have "rtranclp (includes_file fs resolve includeRoot) filePath filePath" by simp
      then show ?thesis
        using "1.prems"(1,2) q(1) Some
        by (cases n) (auto simp: no_directory_reached_def directive_targets_def)
    qed
    then obtain c' where c': "fs q = Some (File c')" by blast
    have reached: "no_directory_reached fs resolve includeRoot q"
      unfolding no_directory_reached_def
    proof (intro allI impI)
      fix p' c'' q' es
      assume r: "rtranclp (includes_file fs resolve includeRoot) q p'"
        and f: "fs p' = Some (File c'')"
        and t: "q' \<in> set (directive_targets resolve includeRoot c'')"
      have "rtranclp (includes_file fs resolve includeRoot) filePath p'"
        using step r by (rule converse_rtranclp_into_rtranclp)
      then show "fs q' \<noteq> Some (Dir es)"
        using "1.prems"(1) f t unfolding no_directory_reached_def by blast
    qed
    from "1.IH"[OF False rd reached c' q(3)] e'(2) d show ?thesis by simp
  qed
qed

section \<open>Lemmas on the file system\<close>

lemma ancestors_shorter: "q \<in> set (ancestors p) \<Longrightarrow> length q < length p"
proof (induction p rule: ancestors.induct)
  case (1 p)
  show ?case
  proof (cases "length (parent_of p) < length p")
    case True
    then have "q = parent_of p \<or> q \<in> set (ancestors (parent_of p))"
      using "1.prems" by (subst (asm) ancestors.simps) simp
    then show ?thesis using True "1.IH"[OF True] by auto
  next
    case False
    then show ?thesis using "1.prems" by (subst (asm) ancestors.simps) simp
  qed
qed

lemma under_longer: "is_under p q \<Longrightarrow> q \<noteq> p \<Longrightarrow> length p < length q"
  by (auto simp: is_under_def prefix_def)

lemma add_entry_other: "q \<noteq> d \<Longrightarrow> add_entry fs d n q = fs q"
  by (simp add: add_entry_def split: option.splits node.splits)

lemma add_entry_not_file:
  "add_entry fs d n q = Some (File c) \<Longrightarrow> fs q = Some (File c)"
  by (auto simp: add_entry_def split: option.splits node.splits if_splits)

lemma mkdir_frame:
  "mkdirSync_recursive fs p = Inr fs' \<Longrightarrow> q \<notin> set (p # ancestors p) \<Longrightarrow> fs' q = fs q"
proof (induction fs p arbitrary: fs' rule: mkdirSync_recursive.induct)
  case (1 fs p)
  show ?case
  proof (cases "fs p")
    case None
    show ?thesis
    proof (cases "length (parent_of p) < length p")
      case True
      then obtain fs1 where r: "mkdirSync_recursive fs (parent_of p) = Inr fs1"
        and fs': "fs' = (add_entry fs1 (parent_of p) (base_of p))(p \<mapsto> Dir [])"
        using "1.prems"(1) None
        by (subst (asm) mkdirSync_recursive.simps) (auto split: sum.splits)
      have anc: "ancestors p = parent_of p # ancestors (parent_of p)"
        using True by (subst ancestors.simps) simp
      have "fs1 q = fs q"
        using "1.IH"[OF None True r] "1.prems"(2) anc by simp
      then show ?thesis using fs' "1.prems"(2) anc by (simp add: add_entry_other)
    next
      case False
      then show ?thesis using "1.prems" None
        by (subst (asm) mkdirSync_recursive.simps) auto
    qed
  next
    case (Some n)
    then show ?thesis using "1.prems"
      by (subst (asm) mkdirSync_recursive.simps) (auto split: node.splits)
  qed
qed

lemma mkdir_creates:
  "fs p = None \<Longrightarrow> mkdirSync_recursive fs p = Inr fs' \<Longrightarrow> fs' p = Some (Dir [])"
  by (subst (asm) mkdirSync_recursive.simps) (auto split: sum.splits if_splits)

lemma mkdir_succeeds:
  "\<forall>q \<in> set (p # ancestors p). \<forall>c. fs q \<noteq> Some (File c) \<Longrightarrow>
   \<exists>fs'. mkdirSync_recursive fs p = Inr fs'"
proof (induction fs p rule: mkdirSync_recursive.induct)
  case (1 fs p)
  show ?case
  proof (cases "fs p")
    case None
    show ?thesis
    proof (cases "length (parent_of p) < length p")
      case True
      have anc: "ancestors p = parent_of p # ancestors (parent_of p)"
        using True by (subst ancestors.simps) simp
      have "\<exists>fs'. mkdirSync_recursive fs (parent_of p) = Inr fs'"
        using "1.IH"[OF None True] "1.prems" anc by simp
      then show ?thesis using None True
        by (subst mkdirSync_recursive.simps) auto
    next
      case False
      then show ?thesis using None by (subst mkdirSync_recursive.simps) simp
    qed
  next
    case (Some n)
    then show ?thesis using "1.prems"
      by (subst mkdirSync_recursive.simps) (cases n; simp)
  qed
qed

lemma rm_under: "is_under p q \<Longrightarrow> rmSync_recursive fs p q = None"
  by (auto simp: rmSync_recursive_def remove_entry_def split: option.splits node.splits)

lemma rm_not_file: "rmSync_recursive fs p q = Some (File c) \<Longrightarrow> fs q = Some (File c)"
  by (auto simp: rmSync_recursive_def remove_entry_def split: option.splits node.splits if_splits)

section \<open>Expansion of a directive (C1)\<close>

text \<open>
  C1, as the code has it. A directive line whose target exists, holds no directive line
  itself and is nested within \<open>maxRecursion\<close> is replaced by the expansion of the
  target, followed by one line terminator. The expansion of the target is its content
  with every LF and CR LF turned into LF and one LF added after its last line, so the
  directive line becomes the normalised content of the target and two terminators. The
  first part states this for the loop at any line of any file, the second for a file
  whose other lines are plain text.
\<close>

theorem directive_splices_expansion:
  assumes "startsWith line marker" "regex_match line = Some target"
    "fs (resolve includeRoot target) = Some (File c)"
    "\<forall>l \<in> set (split_lines c). \<not> startsWith l marker"
    "currentDepth + 1 \<le> maxRecursion"
  shows "include_loop (\<lambda>p. resolveIncludes fs resolve p includeRoot maxRecursion (currentDepth + 1))
            fs resolve includeRoot (line # lines) console content =
         include_loop (\<lambda>p. resolveIncludes fs resolve p includeRoot maxRecursion (currentDepth + 1))
            fs resolve includeRoot lines console (content @ normalize_eol c @ [LF, LF]) \<and>
         (fs filePath = Some (File fileContent) \<and> split_lines fileContent = pre @ line # post \<and>
          (\<forall>l \<in> set (pre @ post). \<not> startsWith l marker) \<longrightarrow>
          resolveIncludes fs resolve filePath includeRoot maxRecursion currentDepth =
            ([], Inr (concat (map (\<lambda>l. l @ [LF]) pre) @ normalize_eol c @ [LF, LF] @
                      concat (map (\<lambda>l. l @ [LF]) post))))"
proof (intro conjI impI)
  show "include_loop (\<lambda>p. resolveIncludes fs resolve p includeRoot maxRecursion (currentDepth + 1))
            fs resolve includeRoot (line # lines) console content =
         include_loop (\<lambda>p. resolveIncludes fs resolve p includeRoot maxRecursion (currentDepth + 1))
            fs resolve includeRoot lines console (content @ normalize_eol c @ [LF, LF])"
    by (rule include_loop_step_include
        [where fs = fs and resolve = resolve and includeRoot = includeRoot and target = target,
          OF assms])
next
  assume a: "fs filePath = Some (File fileContent) \<and> split_lines fileContent = pre @ line # post \<and>
          (\<forall>l \<in> set (pre @ post). \<not> startsWith l marker)"
  have d: "currentDepth \<le> maxRecursion" using assms(5) by simp
  have step: "\<And>lines console content.
      include_loop (\<lambda>p. resolveIncludes fs resolve p includeRoot maxRecursion (currentDepth + 1))
        fs resolve includeRoot (line # lines) console content =
      include_loop (\<lambda>p. resolveIncludes fs resolve p includeRoot maxRecursion (currentDepth + 1))
        fs resolve includeRoot lines (console @ []) (content @ normalize_eol c @ [LF, LF])"
    using include_loop_step_include
        [where fs = fs and resolve = resolve and includeRoot = includeRoot and target = target,
          OF assms]
    by simp
  show "resolveIncludes fs resolve filePath includeRoot maxRecursion currentDepth =
            ([], Inr (concat (map (\<lambda>l. l @ [LF]) pre) @ normalize_eol c @ [LF, LF] @
                      concat (map (\<lambda>l. l @ [LF]) post)))"
    using resolveIncludes_around[where fs = fs and filePath = filePath and diag = "[]",
        OF _ _ _ d step] a
    by simp
qed

text \<open>The scenario of C1: \<open>a.html\<close> is the one line \<open>##include <b.html>\<close>, \<open>b.html\<close> is
  \<open>Hello\<close>, the include root is the watch root.\<close>

theorem directive_splices_expansion_witness:
  "startsWith ''##include <b.html>'' marker \<and>
   regex_match ''##include <b.html>'' = Some ''b.html'' \<and>
   fs_hello (posix_resolve ''/w'' ''b.html'') = Some (File ''Hello'') \<and>
   split_lines ''Hello'' = [''Hello''] \<and> \<not> startsWith ''Hello'' marker \<and>
   (0::int) + 1 \<le> 10 \<and>
   fs_hello ''/w/a.html'' = Some (File ''##include <b.html>'') \<and>
   split_lines ''##include <b.html>'' = [] @ ''##include <b.html>'' # [] \<and>
   resolveIncludes fs_hello posix_resolve ''/w/a.html'' ''/w'' 10 0 =
     ([], Inr (''Hello'' @ [LF, LF]))"
proof -
  have h1: "startsWith ''##include <b.html>'' marker" by code_simp
  have h2: "regex_match ''##include <b.html>'' = Some ''b.html''" by code_simp
  have h3: "fs_hello (posix_resolve ''/w'' ''b.html'') = Some (File ''Hello'')" by code_simp
  have h4: "\<forall>l \<in> set (split_lines ''Hello''). \<not> startsWith l marker" by code_simp
  have h5: "(0::int) + 1 \<le> 10" by simp
  have h6: "fs_hello ''/w/a.html'' = Some (File ''##include <b.html>'')" by code_simp
  have h7: "split_lines ''##include <b.html>'' = [] @ ''##include <b.html>'' # []" by code_simp
  have h8: "split_lines ''Hello'' = [''Hello''] \<and> \<not> startsWith ''Hello'' marker" by code_simp
  show ?thesis
    using h1 h2 h3 h6 h7 h8
      directive_splices_expansion
        [where fs = fs_hello and resolve = posix_resolve and includeRoot = "''/w''"
          and target = "''b.html''" and filePath = "''/w/a.html''"
          and fileContent = "''##include <b.html>''" and pre = "[]" and post = "[]",
          OF h1 h2 h3 h4 h5]
    by simp
qed

text \<open>In that scenario, with the output root \<open>/w/dist\<close>, the file written for \<open>a.html\<close>
  is \<open>Hello\<close> and two terminators, not \<open>Hello\<close> and one.\<close>

theorem hello_scenario_counterexample:
  "disk (processTextFile posix ''/w/a.html'' ''/w/dist'' ''/w'' 10 ''/w''
           \<lparr>disk = fs_hello, tty = []\<rparr>) ''/w/dist/a.html'' = Some (File (''Hello'' @ [LF, LF])) \<and>
   disk (processTextFile posix ''/w/a.html'' ''/w/dist'' ''/w'' 10 ''/w''
           \<lparr>disk = fs_hello, tty = []\<rparr>) ''/w/dist/a.html'' \<noteq> Some (File (''Hello'' @ [LF]))"
  by code_simp

section \<open>Files without directives (C2)\<close>

text \<open>
  C2, as the code has it. For a file none of whose lines begins with the marker, read
  within the depth ceiling, \<open>resolveIncludes\<close> writes nothing to the console and returns
  the content with every LF and CR LF turned into LF, and one more LF after the last
  line. No line is dropped and no character of a line changes; the result is one
  terminator longer than the normalised content.
\<close>

theorem no_directives_normalised:
  assumes "fs filePath = Some (File fileContent)"
    and "\<forall>line \<in> set (split_lines fileContent). \<not> startsWith line marker"
    and "currentDepth \<le> maxRecursion"
  shows "resolveIncludes fs resolve filePath includeRoot maxRecursion currentDepth =
           ([], Inr (normalize_eol fileContent @ [LF]))"
  by (rule resolveIncludes_plain[where fs = fs and filePath = filePath, OF assms])

theorem no_directives_normalised_witness:
  "fs_plain ''/w/a.txt'' = Some (File (''a'' @ [CR, LF] @ ''b'' @ [LF])) \<and>
   split_lines (''a'' @ [CR, LF] @ ''b'' @ [LF]) = [''a'', ''b'', []] \<and>
   \<not> startsWith ''a'' marker \<and> \<not> startsWith ''b'' marker \<and> \<not> startsWith [] marker \<and>
   (0::int) \<le> 10 \<and>
   resolveIncludes fs_plain posix_resolve ''/w/a.txt'' ''/w'' 10 0 =
     ([], Inr (''a'' @ [LF] @ ''b'' @ [LF, LF]))"
proof -
  have h1: "fs_plain ''/w/a.txt'' = Some (File (''a'' @ [CR, LF] @ ''b'' @ [LF]))"
    by (simp add: fs_plain_def)
  have h2: "\<forall>line \<in> set (split_lines (''a'' @ [CR, LF] @ ''b'' @ [LF])). \<not> startsWith line marker"
    by (simp add: startsWith_def marker_def)
  have h3: "(0::int) \<le> 10" by simp
  have h4: "split_lines (''a'' @ [CR, LF] @ ''b'' @ [LF]) = [''a'', ''b'', []] \<and>
    \<not> startsWith ''a'' marker \<and> \<not> startsWith ''b'' marker \<and> \<not> startsWith [] marker"
    by code_simp
  show ?thesis
    using h1 h4
      no_directives_normalised[where fs = fs_plain and filePath = "''/w/a.txt''"
        and resolve = posix_resolve and includeRoot = "''/w''", OF h1 h2 h3]
    by simp
qed

text \<open>The file \<open>a\<close> CR LF \<open>b\<close> LF expands to \<open>a\<close> LF \<open>b\<close> LF LF, while its normalised content
  is \<open>a\<close> LF \<open>b\<close> LF.\<close>

theorem identity_up_to_eol_counterexample:
  "resolveIncludes fs_plain posix_resolve ''/w/a.txt'' ''/w'' 10 0 =
     ([], Inr (''a'' @ [LF] @ ''b'' @ [LF, LF])) \<and>
   normalize_eol (''a'' @ [CR, LF] @ ''b'' @ [LF]) = ''a'' @ [LF] @ ''b'' @ [LF]"
  by code_simp

section \<open>The target of a directive (C3)\<close>

text \<open>
  C3, as the code has it. A line made of the marker \<open>##include\<close>, one or more white-space
  characters, \<open><\<close>, a non-empty text \<open>t\<close> without line terminators, \<open>>\<close> and a rest
  without \<open>>\<close> has the target \<open>t\<close>: the text between the \<open><\<close> that follows the marker and
  the last \<open>>\<close> of the line, since the group of the pattern is greedy. The target is
  handed to \<open>path.resolve\<close> with the include root, and the resolved path is the one
  tested for existence and expanded. A line that does not begin with the marker is
  copied with a terminator and never treated as a directive.
\<close>

theorem directive_target_greedy:
  assumes "ws \<noteq> []" "\<forall>c \<in> set ws. is_space c" "t \<noteq> []"
    "\<forall>c \<in> set t. \<not> is_line_terminator c" "CHR ''>'' \<notin> set r"
  shows "regex_match (marker @ ws @ ''<'' @ t @ ''>'' @ r) = Some t \<and>
    include_loop rec fs resolve includeRoot ((marker @ ws @ ''<'' @ t @ ''>'' @ r) # lines)
        console content =
      (if existsSync fs (resolve includeRoot t) then
         (case rec (resolve includeRoot t) of
            (out, Inl e) \<Rightarrow> (console @ out, Inl e)
          | (out, Inr s) \<Rightarrow>
              include_loop rec fs resolve includeRoot lines (console @ out) (content @ s @ [LF]))
       else include_loop rec fs resolve includeRoot lines
              (console @ [Err (''Error: File not found - '' @ resolve includeRoot t)]) content) \<and>
    (\<forall>line. \<not> startsWith line marker \<longrightarrow>
       include_loop rec fs resolve includeRoot (line # lines) console content =
       include_loop rec fs resolve includeRoot lines console (content @ line @ [LF]))"
proof -
  have m: "regex_match (marker @ ws @ ''<'' @ t @ ''>'' @ r) = Some t"
    by (rule regex_match_directive[OF assms])
  have s: "startsWith (marker @ ws @ ''<'' @ t @ ''>'' @ r) marker"
    by (simp add: startsWith_def)
  show ?thesis using m s by simp
qed

theorem directive_target_greedy_witness:
  "regex_match ''##include <a>b> tail'' = Some ''a>b'' \<and>
   include_loop (\<lambda>p. ([], Inr p)) fs_hello posix_resolve ''/w''
     [''##include  <b.html> tail'', ''<x>''] [] [] =
     ([], Inr (''/w/b.html'' @ [LF] @ ''<x>'' @ [LF]))"
proof -
  have w: "'' '' \<noteq> []" "\<forall>c \<in> set '' ''. is_space c" by (simp_all add: is_space_def)
  have w2: "''  '' \<noteq> []" "\<forall>c \<in> set ''  ''. is_space c" by (simp_all add: is_space_def)
  have t1: "''a>b'' \<noteq> []" "\<forall>c \<in> set ''a>b''. \<not> is_line_terminator c"
    by (simp_all add: is_line_terminator_def)
  have t2: "''b.html'' \<noteq> []" "\<forall>c \<in> set ''b.html''. \<not> is_line_terminator c"
    by (simp_all add: is_line_terminator_def)
  have r: "CHR ''>'' \<notin> set '' tail''" by simp
  have e: "existsSync fs_hello (posix_resolve ''/w'' ''b.html'')" by code_simp
  have p: "\<not> startsWith ''<x>'' marker" by code_simp
  have a: "regex_match ''##include <a>b> tail'' = Some ''a>b''"
    using directive_target_greedy[OF w t1 r] by (simp add: marker_def)
  have b: "include_loop (\<lambda>p. ([], Inr p)) fs_hello posix_resolve ''/w''
     [''##include  <b.html> tail'', ''<x>''] [] [] =
     ([], Inr (''/w/b.html'' @ [LF] @ ''<x>'' @ [LF]))"
    using directive_target_greedy[OF w2 t2 r, of "\<lambda>p. ([], Inr p)" fs_hello posix_resolve "''/w''" "[''<x>'']" "[]" "[]"] e p
    apply (simp add: marker_def posix_resolve_def del: include_loop.simps)
    apply (simp add: startsWith_def marker_def)
    done
  show ?thesis using a b by simp
qed

text \<open>On \<open>##include <a>b>\<close> the target is \<open>a>b\<close>, while the text between the first \<open><\<close> and
  the next \<open>>\<close> is \<open>a\<close>.\<close>

theorem first_closing_angle_counterexample:
  "regex_match ''##include <a>b>'' = Some ''a>b'' \<and> spec_target ''##include <a>b>'' = ''a''"
  by code_simp

section \<open>Chains of nested includes (C4)\<close>

text \<open>
  C4. The top-level file is expanded at depth 0 and every nested include one deeper.
  For a linear chain of \<open>N\<close> nested includes below the top-level file, the expansion
  succeeds when \<open>N \<le> maxRecursion\<close>; when \<open>N = maxRecursion + 1\<close> it fails, and the error
  is the depth error naming the last file of the chain, the one about to be processed
  when the ceiling was hit, wrapped once by every file above it.
\<close>

theorem chain_within_depth:
  assumes "include_chain fs resolve includeRoot (topFile # nested)"
  shows "(int (length nested) \<le> maxRecursion \<longrightarrow>
           (\<exists>out s. resolveIncludes fs resolve topFile includeRoot maxRecursion 0 = (out, Inr s))) \<and>
         (int (length nested) = maxRecursion + 1 \<longrightarrow>
           (\<exists>out. resolveIncludes fs resolve topFile includeRoot maxRecursion 0 =
              (out, Inl (foldr ProcessingError (butlast (topFile # nested))
                           (MaxRecursionExceeded (last (topFile # nested)))))))"
  using chain_succeeds[OF assms, of 0 maxRecursion] chain_fails[OF assms, of 0 maxRecursion]
  by simp

theorem chain_within_depth_witness:
  "include_chain fs_chain posix_resolve ''/w'' [''/w/f0.html'', ''/w/f1.html'', ''/w/f2.html''] \<and>
   (\<exists>out s. resolveIncludes fs_chain posix_resolve ''/w/f0.html'' ''/w'' 2 0 = (out, Inr s)) \<and>
   (\<exists>out. resolveIncludes fs_chain posix_resolve ''/w/f0.html'' ''/w'' 1 0 =
      (out, Inl (ProcessingError ''/w/f0.html'' (ProcessingError ''/w/f1.html''
                   (MaxRecursionExceeded ''/w/f2.html'')))))"
proof -
  have c: "include_chain fs_chain posix_resolve ''/w'' (''/w/f0.html'' # [''/w/f1.html'', ''/w/f2.html''])"
    by code_simp
  show ?thesis
    using c chain_within_depth[OF c, of 2] chain_within_depth[OF c, of 1] by simp
qed

section \<open>A failed expansion writes nothing (C5)\<close>

text \<open>
  C5. When the expansion of a text file fails, in particular with the depth error,
  \<open>processTextFile\<close> leaves the disk as it was: no output file is created and an earlier
  output file stays as it is. The message of the error is written to the console, and
  the function returns, so that the walk over a directory goes on with its next entry
  and the watcher with its next event.
\<close>

theorem failed_expansion_writes_nothing:
  assumes "resolveIncludes (disk w) (path_resolve P) filePath includeRoot maxRecursion 0 = (out, Inl e)"
  shows "processTextFile P filePath outputDir includeRoot maxRecursion watchRoot w =
           w\<lparr>tty := tty w @ out @ [Err (error_message e)]\<rparr> \<and>
         (filePath = path_join P inputDir name \<and>
          \<not> startsWith (path_resolve1 P filePath) (path_resolve1 P outputDir) \<and>
          lstat_isDirectory (disk w) filePath = Inr False \<and>
          isTextFile P filePath textExtensions \<longrightarrow>
          processEntries rec P inputDir outputDir textExtensions includeRoot maxRecursion watchRoot
            (name # files) w =
          processEntries rec P inputDir outputDir textExtensions includeRoot maxRecursion watchRoot
            files (w\<lparr>tty := tty w @ out @ [Err (error_message e)]\<rparr>)) \<and>
         (filePath = path_join P inputDir name \<and> name \<noteq> [] \<and>
          \<not> startsWith (path_resolve1 P filePath) (path_resolve1 P outputDir) \<and>
          lstat_isFile (disk w) filePath = Inr True \<and>
          isTextFile P filePath textExtensions \<longrightarrow>
          watch_events P inputDir outputDir textExtensions includeRoot maxRecursion watchRoot
            ((eventType, Some name) # events) w =
          watch_events P inputDir outputDir textExtensions includeRoot maxRecursion watchRoot
            events
            (w\<lparr>tty := tty w @ [Log (eventType @ '' '' @ name),
                                Log (''Text file changed: '' @ filePath)] @
                        out @ [Err (error_message e)]\<rparr>))"
proof -
  have p: "\<And>w'. disk w' = disk w \<Longrightarrow>
      processTextFile P filePath outputDir includeRoot maxRecursion watchRoot w' =
           w'\<lparr>tty := tty w' @ out @ [Err (error_message e)]\<rparr>"
    using assms by (simp add: processTextFile_def)
  show ?thesis
  proof (intro conjI impI)
    show "processTextFile P filePath outputDir includeRoot maxRecursion watchRoot w =
           w\<lparr>tty := tty w @ out @ [Err (error_message e)]\<rparr>"
      by (rule p) simp
  next
    assume b: "filePath = path_join P inputDir name \<and>
          \<not> startsWith (path_resolve1 P filePath) (path_resolve1 P outputDir) \<and>
          lstat_isDirectory (disk w) filePath = Inr False \<and>
          isTextFile P filePath textExtensions"
    then have b1: "path_join P inputDir name = filePath" by simp
    from b show "processEntries rec P inputDir outputDir textExtensions includeRoot maxRecursion watchRoot
            (name # files) w =
          processEntries rec P inputDir outputDir textExtensions includeRoot maxRecursion watchRoot
            files (w\<lparr>tty := tty w @ out @ [Err (error_message e)]\<rparr>)"
      using p[of w] by (simp add: Let_def b1)
  next
    assume a: "filePath = path_join P inputDir name \<and> name \<noteq> [] \<and>
          \<not> startsWith (path_resolve1 P filePath) (path_resolve1 P outputDir) \<and>
          lstat_isFile (disk w) filePath = Inr True \<and>
          isTextFile P filePath textExtensions"
    then have ex: "existsSync (disk w) filePath"
      by (auto simp: lstat_isFile_def existsSync_def split: option.splits)
    let ?w1 = "w\<lparr>tty := tty w @ [Log (eventType @ '' '' @ name),
                                    Log (''Text file changed: '' @ filePath)]\<rparr>"
    have "watch_callback P inputDir outputDir textExtensions includeRoot maxRecursion watchRoot
            eventType (Some name) w =
          processTextFile P filePath outputDir includeRoot maxRecursion watchRoot ?w1"
      using a ex by (auto simp: watch_callback_def Let_def)
    also have "\<dots> = ?w1\<lparr>tty := tty ?w1 @ out @ [Err (error_message e)]\<rparr>"
      by (rule p) simp
    finally have "watch_callback P inputDir outputDir textExtensions includeRoot maxRecursion
            watchRoot eventType (Some name) w =
          w\<lparr>tty := tty w @ [Log (eventType @ '' '' @ name),
                                Log (''Text file changed: '' @ filePath)] @
                        out @ [Err (error_message e)]\<rparr>"
      by simp
    then show "watch_events P inputDir outputDir textExtensions includeRoot maxRecursion watchRoot
            ((eventType, Some name) # events) w =
          watch_events P inputDir outputDir textExtensions includeRoot maxRecursion watchRoot
            events
            (w\<lparr>tty := tty w @ [Log (eventType @ '' '' @ name),
                                Log (''Text file changed: '' @ filePath)] @
                        out @ [Err (error_message e)]\<rparr>)"
      by simp
  qed
qed

theorem failed_expansion_writes_nothing_witness:
  "resolveIncludes fs_cycle posix_resolve ''/w/a.html'' ''/w'' 1 0 =
     ([], Inl (ProcessingError ''/w/a.html'' (ProcessingError ''/w/b.html''
                 (MaxRecursionExceeded ''/w/a.html'')))) \<and>
   processTextFile posix ''/w/a.html'' ''/w/dist'' ''/w'' 1 ''/w'' \<lparr>disk = fs_cycle, tty = []\<rparr> =
     \<lparr>disk = fs_cycle,
      tty = [Err ''Error processing file /w/a.html: Error processing file /w/b.html: Max recursion depth exceeded while processing includes in /w/a.html'']\<rparr> \<and>
   processEntries (\<lambda>d w. None) posix ''/w'' ''/w/dist'' default_extensions ''/w'' 1 ''/w''
     [''a.html''] \<lparr>disk = fs_cycle, tty = []\<rparr> =
     Some (\<lparr>disk = fs_cycle,
            tty = [Err ''Error processing file /w/a.html: Error processing file /w/b.html: Max recursion depth exceeded while processing includes in /w/a.html'']\<rparr>,
           None) \<and>
   watch_events posix ''/w'' ''/w/dist'' default_extensions ''/w'' 1 ''/w''
     [(''change'', Some ''a.html'')] \<lparr>disk = fs_cycle, tty = []\<rparr> =
     \<lparr>disk = fs_cycle,
      tty = [Log ''change a.html'', Log ''Text file changed: /w/a.html'',
             Err ''Error processing file /w/a.html: Error processing file /w/b.html: Max recursion depth exceeded while processing includes in /w/a.html'']\<rparr>"
proof -
  have r: "resolveIncludes (disk \<lparr>disk = fs_cycle, tty = []\<rparr>) (path_resolve posix) ''/w/a.html''
      ''/w'' 1 0 =
     ([], Inl (ProcessingError ''/w/a.html'' (ProcessingError ''/w/b.html''
                 (MaxRecursionExceeded ''/w/a.html''))))"
    by code_simp
  have h0: "path_join posix ''/w'' ''a.html'' = ''/w/a.html''" by code_simp
  have h: "\<not> startsWith (path_resolve1 posix ''/w/a.html'') (path_resolve1 posix ''/w/dist'') \<and>
      lstat_isDirectory (disk \<lparr>disk = fs_cycle, tty = []\<rparr>) ''/w/a.html'' = Inr False \<and>
      lstat_isFile (disk \<lparr>disk = fs_cycle, tty = []\<rparr>) ''/w/a.html'' = Inr True \<and>
      isTextFile posix ''/w/a.html'' default_extensions"
    by code_simp
  have p: "path_resolve posix = posix_resolve" by (simp add: posix_def)
  show ?thesis
    using r h0 h
      failed_expansion_writes_nothing
        [where w = "\<lparr>disk = fs_cycle, tty = []\<rparr>" and P = posix and filePath = "''/w/a.html''"
          and inputDir = "''/w''" and name = "''a.html''" and outputDir = "''/w/dist''"
          and textExtensions = default_extensions and watchRoot = "''/w''"
          and rec = "\<lambda>d w. None" and files = "[]" and events = "[]"
          and eventType = "''change''", OF r]
    by (simp add: p)
qed

section \<open>Files that include themselves (C6)\<close>

text \<open>
  C6, as the code has it. \<open>resolveIncludes\<close> is a total function: the depth grows by one
  with every nested call and no call is made beyond \<open>maxRecursion + 1\<close>, so an expansion
  always returns. For a file that includes itself, directly or through a chain of files
  that leads back to it, the expansion returns an error, whatever \<open>maxRecursion\<close> and the
  depth it starts at. When no directive of a file reached from it names a directory, so
  that every read of a target succeeds, the error is the depth error, thrown by the call
  at depth \<open>maxRecursion + 1\<close>: it went through \<open>maxRecursion + 1 - currentDepth\<close> \<open>catch\<close>
  blocks.
\<close>

theorem include_cycle_fails:
  assumes "tranclp (includes_file fs resolve includeRoot) filePath filePath"
  shows "\<exists>out e. resolveIncludes fs resolve filePath includeRoot maxRecursion currentDepth =
           (out, Inl e) \<and>
         (no_directory_reached fs resolve includeRoot filePath \<longrightarrow>
            (\<exists>q. root_cause e = MaxRecursionExceeded q) \<and>
            int (nesting e) = max 0 (maxRecursion + 1 - currentDepth))"
proof -
  from cycle_fails[OF assms] obtain out e where
    r: "resolveIncludes fs resolve filePath includeRoot maxRecursion currentDepth = (out, Inl e)"
    by blast
  from cycle_successor[OF assms] obtain q where
    q: "includes_file fs resolve includeRoot filePath q"
    by blast
  then obtain c where c: "fs filePath = Some (File c)"
    by (auto simp: includes_file_def split: option.splits node.splits)
  show ?thesis
    using r errors_are_depth_errors[where fs = fs and filePath = filePath, OF _ c r] by blast
qed

text \<open>Two files that include each other, expanded with \<open>maxRecursion = 2\<close>: the calls are at
  depths 0 to 3, and the call at depth 3 throws.\<close>

theorem include_cycle_fails_witness:
  "tranclp (includes_file fs_cycle posix_resolve ''/w'') ''/w/a.html'' ''/w/a.html'' \<and>
   no_directory_reached fs_cycle posix_resolve ''/w'' ''/w/a.html'' \<and>
   (\<exists>out e q. resolveIncludes fs_cycle posix_resolve ''/w/a.html'' ''/w'' 2 0 = (out, Inl e) \<and>
      root_cause e = MaxRecursionExceeded q \<and> nesting e = 3)"
proof -
  have ab: "includes_file fs_cycle posix_resolve ''/w'' ''/w/a.html'' ''/w/b.html''" by code_simp
  have ba: "includes_file fs_cycle posix_resolve ''/w'' ''/w/b.html'' ''/w/a.html''" by code_simp
  have cyc: "tranclp (includes_file fs_cycle posix_resolve ''/w'') ''/w/a.html'' ''/w/a.html''"
    using ab ba by (rule tranclp.trancl_into_trancl[OF tranclp.r_into_trancl])
  have ta: "directive_targets posix_resolve ''/w'' (''A'' @ [LF] @ ''##include <b.html>'') =
      [''/w/b.html'']"
    by code_simp
  have tb: "directive_targets posix_resolve ''/w'' (''##include <a.html>'' @ [LF] @ ''B'') =
      [''/w/a.html'']"
    by code_simp
  have nd: "no_directory_reached fs_cycle posix_resolve ''/w'' ''/w/a.html''"
    unfolding no_directory_reached_def fs_cycle_def
    using ta tb by (auto split: if_splits)
  show ?thesis
    using cyc nd include_cycle_fails[OF cyc, of 2 0] by auto
qed

text \<open>A file whose first directive names the directory \<open>/w/sub\<close> and whose second names the
  file itself: the expansion fails at depth 1 with the error of reading a directory, not
  with the depth error.\<close>

theorem directory_before_cycle_counterexample:
  "tranclp (includes_file fs_subdir posix_resolve ''/w'') ''/w/a.html'' ''/w/a.html'' \<and>
   resolveIncludes fs_subdir posix_resolve ''/w/a.html'' ''/w'' 10 0 =
     ([], Inl (ProcessingError ''/w/a.html'' (ProcessingError ''/w/sub''
                 (FsError ''EISDIR: illegal operation on a directory, read''))))"
proof -
  have "includes_file fs_subdir posix_resolve ''/w'' ''/w/a.html'' ''/w/a.html''" by code_simp
  then have "tranclp (includes_file fs_subdir posix_resolve ''/w'') ''/w/a.html'' ''/w/a.html''"
    by (rule tranclp.r_into_trancl)
  moreover have "resolveIncludes fs_subdir posix_resolve ''/w/a.html'' ''/w'' 10 0 =
     ([], Inl (ProcessingError ''/w/a.html'' (ProcessingError ''/w/sub''
                 (FsError ''EISDIR: illegal operation on a directory, read''))))"
    by code_simp
  ultimately show ?thesis by simp
qed

section \<open>Malformed directives (C7)\<close>

text \<open>
  C7. A line that begins with the marker and does not match the pattern writes the
  diagnostic \<open>Error: Malformed include directive - \<close> and the line to the console, adds
  nothing to the output, and the loop goes on with the lines after it. The first part
  states this for the loop at any line of any file, the second for a file read within
  the depth ceiling whose other lines are plain text.
\<close>

theorem malformed_directive_dropped:
  assumes "startsWith line marker" "regex_match line = None"
  shows "include_loop rec fs resolve includeRoot (pre @ line # post) console content =
     (case include_loop rec fs resolve includeRoot pre console content of
        (out, Inl e) \<Rightarrow> (out, Inl e)
      | (out, Inr s) \<Rightarrow>
          include_loop rec fs resolve includeRoot post
            (out @ [Err (''Error: Malformed include directive - '' @ line)]) s) \<and>
    (fs filePath = Some (File fileContent) \<and> split_lines fileContent = pre @ line # post \<and>
     (\<forall>l \<in> set (pre @ post). \<not> startsWith l marker) \<and> currentDepth \<le> maxRecursion \<longrightarrow>
     resolveIncludes fs resolve filePath includeRoot maxRecursion currentDepth =
       ([Err (''Error: Malformed include directive - '' @ line)],
        Inr (concat (map (\<lambda>l. l @ [LF]) (pre @ post)))))"
proof (intro conjI impI)
  show "include_loop rec fs resolve includeRoot (pre @ line # post) console content =
     (case include_loop rec fs resolve includeRoot pre console content of
        (out, Inl e) \<Rightarrow> (out, Inl e)
      | (out, Inr s) \<Rightarrow>
          include_loop rec fs resolve includeRoot post
            (out @ [Err (''Error: Malformed include directive - '' @ line)]) s)"
    using assms by (simp add: include_loop_append split: prod.splits sum.splits)
next
  assume a: "fs filePath = Some (File fileContent) \<and> split_lines fileContent = pre @ line # post \<and>
     (\<forall>l \<in> set (pre @ post). \<not> startsWith l marker) \<and> currentDepth \<le> maxRecursion"
  have step: "\<And>lines console content.
      include_loop (\<lambda>p. resolveIncludes fs resolve p includeRoot maxRecursion (currentDepth + 1))
        fs resolve includeRoot (line # lines) console content =
      include_loop (\<lambda>p. resolveIncludes fs resolve p includeRoot maxRecursion (currentDepth + 1))
        fs resolve includeRoot lines
        (console @ [Err (''Error: Malformed include directive - '' @ line)]) (content @ [])"
    using assms by simp
  show "resolveIncludes fs resolve filePath includeRoot maxRecursion currentDepth =
       ([Err (''Error: Malformed include directive - '' @ line)],
        Inr (concat (map (\<lambda>l. l @ [LF]) (pre @ post))))"
    using resolveIncludes_around[where fs = fs and filePath = filePath and added = "[]", OF _ _ _ _ step] a
    by simp
qed

theorem malformed_directive_dropped_witness:
  "startsWith ''##include b.html'' marker \<and> regex_match ''##include b.html'' = None \<and>
   fs_broken ''/w/m.html'' = Some (File (''x'' @ [LF] @ ''##include b.html'' @ [LF] @ ''y'')) \<and>
   split_lines (''x'' @ [LF] @ ''##include b.html'' @ [LF] @ ''y'') =
     [''x''] @ ''##include b.html'' # [''y''] \<and>
   resolveIncludes fs_broken posix_resolve ''/w/m.html'' ''/w'' 10 0 =
     ([Err ''Error: Malformed include directive - ##include b.html''],
      Inr (''x'' @ [LF] @ ''y'' @ [LF]))"
proof -
  have h1: "startsWith ''##include b.html'' marker" by code_simp
  have h2: "regex_match ''##include b.html'' = None" by code_simp
  have h3: "fs_broken ''/w/m.html'' =
      Some (File (''x'' @ [LF] @ ''##include b.html'' @ [LF] @ ''y''))"
    by code_simp
  have h4: "split_lines (''x'' @ [LF] @ ''##include b.html'' @ [LF] @ ''y'') =
      [''x''] @ ''##include b.html'' # [''y'']"
    by code_simp
  have h5: "\<not> startsWith ''x'' marker \<and> \<not> startsWith ''y'' marker" by code_simp
  show ?thesis
    using h1 h2 h3 h4 h5
      malformed_directive_dropped
        [where fs = fs_broken and filePath = "''/w/m.html''" and pre = "[''x'']"
          and post = "[''y'']" and resolve = posix_resolve and includeRoot = "''/w''"
          and fileContent = "''x'' @ [LF] @ ''##include b.html'' @ [LF] @ ''y''"
          and currentDepth = 0 and maxRecursion = 10, OF h1 h2]
    by simp
qed

section \<open>Missing targets (C8)\<close>

text \<open>
  C8. A well-formed directive whose resolved target does not exist writes the diagnostic
  \<open>Error: File not found - \<close> and the resolved path to the console, adds nothing to the
  output, and the loop goes on with the lines after it; the expansion of the file does
  not fail because of it. The first part states this for the loop at any line of any
  file, the second for a file read within the depth ceiling whose other lines are plain
  text.
\<close>

theorem missing_target_skipped:
  assumes "startsWith line marker" "regex_match line = Some target"
    "\<not> existsSync fs (resolve includeRoot target)"
  shows "include_loop rec fs resolve includeRoot (pre @ line # post) console content =
     (case include_loop rec fs resolve includeRoot pre console content of
        (out, Inl e) \<Rightarrow> (out, Inl e)
      | (out, Inr s) \<Rightarrow>
          include_loop rec fs resolve includeRoot post
            (out @ [Err (''Error: File not found - '' @ resolve includeRoot target)]) s) \<and>
    (fs filePath = Some (File fileContent) \<and> split_lines fileContent = pre @ line # post \<and>
     (\<forall>l \<in> set (pre @ post). \<not> startsWith l marker) \<and> currentDepth \<le> maxRecursion \<longrightarrow>
     resolveIncludes fs resolve filePath includeRoot maxRecursion currentDepth =
       ([Err (''Error: File not found - '' @ resolve includeRoot target)],
        Inr (concat (map (\<lambda>l. l @ [LF]) (pre @ post)))))"
proof (intro conjI impI)
  show "include_loop rec fs resolve includeRoot (pre @ line # post) console content =
     (case include_loop rec fs resolve includeRoot pre console content of
        (out, Inl e) \<Rightarrow> (out, Inl e)
      | (out, Inr s) \<Rightarrow>
          include_loop rec fs resolve includeRoot post
            (out @ [Err (''Error: File not found - '' @ resolve includeRoot target)]) s)"
    using assms by (simp add: include_loop_append split: prod.splits sum.splits)
next
  assume a: "fs filePath = Some (File fileContent) \<and> split_lines fileContent = pre @ line # post \<and>
     (\<forall>l \<in> set (pre @ post). \<not> startsWith l marker) \<and> currentDepth \<le> maxRecursion"
  have step: "\<And>lines console content.
      include_loop (\<lambda>p. resolveIncludes fs resolve p includeRoot maxRecursion (currentDepth + 1))
        fs resolve includeRoot (line # lines) console content =
      include_loop (\<lambda>p. resolveIncludes fs resolve p includeRoot maxRecursion (currentDepth + 1))
        fs resolve includeRoot lines
        (console @ [Err (''Error: File not found - '' @ resolve includeRoot target)]) (content @ [])"
    using assms by simp
  show "resolveIncludes fs resolve filePath includeRoot maxRecursion currentDepth =
       ([Err (''Error: File not found - '' @ resolve includeRoot target)],
        Inr (concat (map (\<lambda>l. l @ [LF]) (pre @ post))))"
    using resolveIncludes_around[where fs = fs and filePath = filePath and added = "[]", OF _ _ _ _ step] a
    by simp
qed

theorem missing_target_skipped_witness:
  "startsWith ''##include <gone.html>'' marker \<and>
   regex_match ''##include <gone.html>'' = Some ''gone.html'' \<and>
   \<not> existsSync fs_broken (posix_resolve ''/w'' ''gone.html'') \<and>
   fs_broken ''/w/n.html'' = Some (File (''x'' @ [LF] @ ''##include <gone.html>'' @ [LF] @ ''y'')) \<and>
   split_lines (''x'' @ [LF] @ ''##include <gone.html>'' @ [LF] @ ''y'') =
     [''x''] @ ''##include <gone.html>'' # [''y''] \<and>
   resolveIncludes fs_broken posix_resolve ''/w/n.html'' ''/w'' 10 0 =
     ([Err ''Error: File not found - /w/gone.html''], Inr (''x'' @ [LF] @ ''y'' @ [LF]))"
proof -
  have h1: "startsWith ''##include <gone.html>'' marker" by code_simp
  have h2: "regex_match ''##include <gone.html>'' = Some ''gone.html''" by code_simp
  have h3: "\<not> existsSync fs_broken (posix_resolve ''/w'' ''gone.html'')" by code_simp
  have h4: "fs_broken ''/w/n.html'' =
      Some (File (''x'' @ [LF] @ ''##include <gone.html>'' @ [LF] @ ''y''))"
    by code_simp
  have h5: "split_lines (''x'' @ [LF] @ ''##include <gone.html>'' @ [LF] @ ''y'') =
      [''x''] @ ''##include <gone.html>'' # [''y'']"
    by code_simp
  have h6: "\<not> startsWith ''x'' marker \<and> \<not> startsWith ''y'' marker" by code_simp
  have h7: "posix_resolve ''/w'' ''gone.html'' = ''/w/gone.html''" by code_simp
  show ?thesis
    using h1 h2 h3 h4 h5 h6 h7
      missing_target_skipped
        [where fs = fs_broken and filePath = "''/w/n.html''" and pre = "[''x'']"
          and post = "[''y'']" and resolve = posix_resolve and includeRoot = "''/w''"
          and target = "''gone.html''"
          and fileContent = "''x'' @ [LF] @ ''##include <gone.html>'' @ [LF] @ ''y''"
          and currentDepth = 0 and maxRecursion = 10, OF h1 h2 h3]
    by simp
qed

section \<open>Resetting the output directory (C9)\<close>

text \<open>
  C9, as the code has it. With \<open>skipDelete\<close> true, \<open>resetOutputDirectory\<close> writes one line
  to the console and leaves the disk as it is: an existing output root and its contents
  stay untouched, and a missing output root is not created. With \<open>skipDelete\<close> false,
  when no regular file stands where a directory above the output root has to be, the
  output root is removed with everything below it and created again: afterwards it is a
  directory without entries and nothing lies below it.
\<close>

theorem reset_output_directory:
  "resetOutputDirectory outputDir True w =
     (w\<lparr>tty := tty w @ [Log (''Skipped deleting existing output directory: '' @ outputDir)]\<rparr>, None) \<and>
   ((\<forall>q \<in> set (ancestors outputDir). \<forall>c. disk w q \<noteq> Some (File c)) \<and>
    (existsSync (disk w) outputDir \<or> (\<forall>q. is_under outputDir q \<longrightarrow> disk w q = None)) \<longrightarrow>
    (\<exists>w'. resetOutputDirectory outputDir False w = (w', None) \<and>
          disk w' outputDir = Some (Dir []) \<and>
          (\<forall>q. is_under outputDir q \<and> q \<noteq> outputDir \<longrightarrow> disk w' q = None)))"
proof (intro conjI impI)
  show "resetOutputDirectory outputDir True w =
     (w\<lparr>tty := tty w @ [Log (''Skipped deleting existing output directory: '' @ outputDir)]\<rparr>, None)"
    by (simp add: resetOutputDirectory_def)
next
  assume a: "(\<forall>q \<in> set (ancestors outputDir). \<forall>c. disk w q \<noteq> Some (File c)) \<and>
    (existsSync (disk w) outputDir \<or> (\<forall>q. is_under outputDir q \<longrightarrow> disk w q = None))"
  define fs1 where "fs1 = (if existsSync (disk w) outputDir
                   then rmSync_recursive (disk w) outputDir else disk w)"
  have under: "\<forall>q. is_under outputDir q \<longrightarrow> fs1 q = None"
    using a by (auto simp: fs1_def rm_under)
  have self: "fs1 outputDir = None" using under by (simp add: is_under_def)
  have nofile: "\<forall>q \<in> set (outputDir # ancestors outputDir). \<forall>c. fs1 q \<noteq> Some (File c)"
    using a self by (auto simp: fs1_def dest: rm_not_file)
  from mkdir_succeeds[OF nofile] obtain fs2 where m: "mkdirSync_recursive fs1 outputDir = Inr fs2"
    by blast
  have created: "fs2 outputDir = Some (Dir [])" by (rule mkdir_creates[OF self m])
  have below: "\<forall>q. is_under outputDir q \<and> q \<noteq> outputDir \<longrightarrow> fs2 q = None"
  proof (intro allI impI)
    fix q assume q: "is_under outputDir q \<and> q \<noteq> outputDir"
    then have "length outputDir < length q" by (simp add: under_longer)
    then have "q \<notin> set (outputDir # ancestors outputDir)"
      using q ancestors_shorter[of q outputDir] by auto
    from mkdir_frame[OF m this] under q show "fs2 q = None" by simp
  qed
  show "\<exists>w'. resetOutputDirectory outputDir False w = (w', None) \<and>
          disk w' outputDir = Some (Dir []) \<and>
          (\<forall>q. is_under outputDir q \<and> q \<noteq> outputDir \<longrightarrow> disk w' q = None)"
    using m created below
    by (auto simp: resetOutputDirectory_def fs1_def Let_def)
qed

theorem reset_output_directory_witness:
  "resetOutputDirectory ''/w/dist'' True \<lparr>disk = fs_stale, tty = []\<rparr> =
     (\<lparr>disk = fs_stale,
       tty = [Log ''Skipped deleting existing output directory: /w/dist'']\<rparr>, None) \<and>
   ancestors ''/w/dist'' = [''/w'', ''/''] \<and> existsSync fs_stale ''/w/dist'' \<and>
   (\<exists>w'. resetOutputDirectory ''/w/dist'' False \<lparr>disk = fs_stale, tty = []\<rparr> = (w', None) \<and>
         disk w' ''/w/dist'' = Some (Dir []) \<and> disk w' ''/w/dist/old.txt'' = None)"
proof -
  have a: "ancestors ''/w/dist'' = [''/w'', ''/'']" by code_simp
  have f: "(\<forall>c. fs_stale ''/w'' \<noteq> Some (File c)) \<and> (\<forall>c. fs_stale ''/'' \<noteq> Some (File c))"
    by (simp add: fs_stale_def)
  have e: "existsSync fs_stale ''/w/dist''" by code_simp
  have u: "is_under ''/w/dist'' ''/w/dist/old.txt'' \<and> ''/w/dist/old.txt'' \<noteq> ''/w/dist''"
    by code_simp
  show ?thesis
    using a e u f reset_output_directory[of "''/w/dist''" "\<lparr>disk = fs_stale, tty = []\<rparr>"]
    by auto
qed

text \<open>With \<open>skipDelete\<close> true and no output root \<open>/w/dist\<close> on the disk, there is none after
  the reset either.\<close>

theorem skip_delete_ensures_counterexample:
  "\<not> existsSync fs_hello ''/w/dist'' \<and>
   \<not> existsSync (disk (fst (resetOutputDirectory ''/w/dist'' True \<lparr>disk = fs_hello, tty = []\<rparr>)))
      ''/w/dist''"
  by code_simp

section \<open>The skip of the output root is a test on strings (C10)\<close>

text \<open>
  C10. An entry of the walk, and a path reported to the watcher, is skipped when the
  string of its resolved path begins with the string of the resolved output root: the
  walk goes on with the next entry without touching disk or console, and the callback
  of the watcher only prints the event. The test compares strings, not directories, so
  it also skips a path that is not inside the output root and only shares its name as a
  prefix, such as \<open>/w/dist2\<close> beside the output root \<open>/w/dist\<close>.
\<close>

theorem output_root_prefix_skip:
  assumes "startsWith (path_resolve1 P (path_join P inputDir name)) (path_resolve1 P outputDir)"
  shows "processEntries rec P inputDir outputDir textExtensions includeRoot maxRecursion watchRoot
           (name # files) w =
         processEntries rec P inputDir outputDir textExtensions includeRoot maxRecursion watchRoot
           files w \<and>
         watch_callback P inputDir outputDir textExtensions includeRoot maxRecursion watchRoot
           eventType (Some name) w =
         w\<lparr>tty := tty w @ [Log (eventType @ '' '' @ name)]\<rparr>"
  using assms by (simp add: watch_callback_def Let_def)

theorem output_root_prefix_skip_witness:
  "startsWith (path_resolve1 posix (path_join posix ''/w'' ''dist2''))
     (path_resolve1 posix ''/w/dist'') \<and>
   \<not> is_under ''/w/dist'' ''/w/dist2'' \<and> \<not> is_under ''/w/dist'' ''/w/dist2/x.html'' \<and>
   readdirSync fs_sibling ''/w'' = Inr [''dist'', ''dist2''] \<and>
   processDirectory (Suc 0) posix ''/w'' ''/w/dist'' default_extensions ''/w'' 10 ''/w''
     \<lparr>disk = fs_sibling, tty = []\<rparr> =
     Some (\<lparr>disk = fs_sibling, tty = []\<rparr>, None) \<and>
   watch_callback posix ''/w'' ''/w/dist'' default_extensions ''/w'' 10 ''/w''
     ''change'' (Some ''dist2/x.html'') \<lparr>disk = fs_sibling, tty = []\<rparr> =
     \<lparr>disk = fs_sibling, tty = [Log ''change dist2/x.html'']\<rparr>"
proof -
  let ?w = "\<lparr>disk = fs_sibling, tty = []\<rparr>"
  let ?rec = "\<lambda>d w'. processDirectory 0 posix d ''/w/dist'' default_extensions ''/w'' 10 ''/w'' w'"
  have h0: "startsWith (path_resolve1 posix (path_join posix ''/w'' ''dist''))
     (path_resolve1 posix ''/w/dist'')"
    by code_simp
  have h1: "startsWith (path_resolve1 posix (path_join posix ''/w'' ''dist2''))
     (path_resolve1 posix ''/w/dist'')"
    by code_simp
  have h2: "startsWith (path_resolve1 posix (path_join posix ''/w'' ''dist2/x.html''))
     (path_resolve1 posix ''/w/dist'')"
    by code_simp
  have h3: "\<not> is_under ''/w/dist'' ''/w/dist2'' \<and> \<not> is_under ''/w/dist'' ''/w/dist2/x.html''"
    by code_simp
  have h4: "readdirSync (disk ?w) ''/w'' = Inr [''dist'', ''dist2'']" by code_simp
  have "processEntries ?rec posix ''/w'' ''/w/dist'' default_extensions ''/w'' 10 ''/w''
      [''dist'', ''dist2''] ?w =
    processEntries ?rec posix ''/w'' ''/w/dist'' default_extensions ''/w'' 10 ''/w'' [''dist2''] ?w"
    using output_root_prefix_skip[where rec = ?rec and files = "[''dist2'']" and w = ?w, OF h0]
    by (simp del: processEntries.simps)
  also have "\<dots> =
    processEntries ?rec posix ''/w'' ''/w/dist'' default_extensions ''/w'' 10 ''/w'' [] ?w"
    using output_root_prefix_skip[where rec = ?rec and files = "[]" and w = ?w, OF h1]
    by (simp del: processEntries.simps)
  also have "\<dots> = Some (?w, None)"
    by simp
  finally have entries: "processEntries ?rec posix ''/w'' ''/w/dist'' default_extensions ''/w'' 10
      ''/w'' [''dist'', ''dist2''] ?w = Some (?w, None)" .
  have walk: "processDirectory (Suc 0) posix ''/w'' ''/w/dist'' default_extensions ''/w''
      10 ''/w'' ?w = Some (?w, None)"
    by (simp only: processDirectory.simps h4 sum.case entries)
  have cb: "watch_callback posix ''/w'' ''/w/dist'' default_extensions ''/w'' 10 ''/w''
     ''change'' (Some ''dist2/x.html'') ?w = \<lparr>disk = fs_sibling, tty = [Log ''change dist2/x.html'']\<rparr>"
    using output_root_prefix_skip
        [where w = ?w and eventType = "''change''" and textExtensions = default_extensions
          and includeRoot = "''/w''" and maxRecursion = 10 and watchRoot = "''/w''", OF h2]
    by simp
  show ?thesis using h1 h3 h4 walk cb by (simp del: processEntries.simps processDirectory.simps)
qed

end
